theory Spec2Isabelle
  imports Main "HOL-Library.Word" "HOL-Library.Signed_Division" "HOL-Library.Log_Nat"
begin

section \<open>AsciiBird: the simulation core of driver.c\<close>

text \<open>
  The development embeds the simulation part of \<^verbatim>\<open>driver.c\<close>: the pipe obstacles
  (\<^verbatim>\<open>pipe_refresh\<close>, \<^verbatim>\<open>get_orow\<close>), Flappy's arc (\<^verbatim>\<open>get_flappy_position\<close>),
  the collision tests (\<^verbatim>\<open>crashed_into_pipe\<close>, \<^verbatim>\<open>draw_flappy\<close>), the failure screen and one
  iteration of the loop of \<^verbatim>\<open>main\<close>. Calls that only write to the ncurses screen or sleep
  (\<^verbatim>\<open>mvprintw\<close>, \<^verbatim>\<open>clear\<close>, \<^verbatim>\<open>refresh\<close>, \<^verbatim>\<open>usleep\<close>, \<^verbatim>\<open>draw_pipe\<close>,
  \<^verbatim>\<open>draw_floor_and_ceiling\<close>, \<^verbatim>\<open>splash_screen\<close>) change none of the variables below and
  are left out.
\<close>

subsection \<open>Machine arithmetic\<close>

text \<open>
  A C \<^verbatim>\<open>int\<close> is a 32-bit word read in two's complement; \<open>+\<close>, \<open>-\<close> and \<open>*\<close> wrap
  around. Comparisons are the signed ones (\<open><s\<close>, \<open>\<le>s\<close>).
\<close>

type_synonym cint = "32 word"

text \<open>Integer division of C truncates towards zero, so \<^verbatim>\<open>-7 / 2\<close> is \<open>-3\<close>.\<close>

definition c_div :: "cint \<Rightarrow> cint \<Rightarrow> cint" where
  "c_div a b = word_of_int (sint a sdiv sint b)"

text \<open>
  A \<^verbatim>\<open>float\<close> is an IEEE 754 binary32 number and a \<^verbatim>\<open>double\<close> a binary64 number; both
  are carried as the rational number they denote. Every operation computes the exact
  rational result and rounds it to the nearest number of the format, ties to the even
  significand, with gradual underflow. \<open>ilog2 x\<close> is the binary exponent of a positive \<open>x\<close>,
  that is \<open>\<lfloor>log\<^sub>2 x\<rfloor>\<close>. An operation on two \<^verbatim>\<open>float\<close>s rounds to \<^verbatim>\<open>float\<close> and an
  operation with a \<^verbatim>\<open>double\<close> operand to \<^verbatim>\<open>double\<close> (\<^verbatim>\<open>FLT_EVAL_METHOD\<close> 0, as with SSE
  arithmetic, and no fused operations). Infinities and NaN are not represented: no value of
  the game comes near the largest finite number of either format.
\<close>

type_synonym cfloat = rat
type_synonym cdouble = rat

definition ilog2 :: "rat \<Rightarrow> int" where
  "ilog2 x = (let (p, q) = quotient_of x; k = bitlen p - bitlen q
              in if 2 powi k \<le> x then k else k - 1)"

definition round_half_even :: "rat \<Rightarrow> int" where
  "round_half_even x =
     (let n = \<lfloor>x\<rfloor>; d = x - of_int n
      in if d < 1 / 2 then n else if 1 / 2 < d then n + 1 else if even n then n else n + 1)"

definition round_to :: "nat \<Rightarrow> int \<Rightarrow> rat \<Rightarrow> rat" where
  "round_to p emin x =
     (if x = 0 then 0
      else let e = max (ilog2 \<bar>x\<bar>) emin; u = 2 powi (e - int p + 1)
           in of_int (round_half_even (x / u)) * u)"

definition round32 :: "rat \<Rightarrow> cfloat" where
  "round32 = round_to 24 (- 126)"

definition round64 :: "rat \<Rightarrow> cdouble" where
  "round64 = round_to 53 (- 1022)"

definition fadd :: "cfloat \<Rightarrow> cfloat \<Rightarrow> cfloat" where
  "fadd a b = round32 (a + b)"

definition fsub :: "cfloat \<Rightarrow> cfloat \<Rightarrow> cfloat" where
  "fsub a b = round32 (a - b)"

definition fmul :: "cfloat \<Rightarrow> cfloat \<Rightarrow> cfloat" where
  "fmul a b = round32 (a * b)"

definition fdiv :: "cfloat \<Rightarrow> cfloat \<Rightarrow> cfloat" where
  "fdiv a b = round32 (a / b)"

definition dadd :: "cdouble \<Rightarrow> cdouble \<Rightarrow> cdouble" where
  "dadd a b = round64 (a + b)"

definition dmul :: "cdouble \<Rightarrow> cdouble \<Rightarrow> cdouble" where
  "dmul a b = round64 (a * b)"

text \<open>Conversions: \<^verbatim>\<open>int\<close> to \<^verbatim>\<open>float\<close> and \<^verbatim>\<open>double\<close>, widening, narrowing, and a
  decimal literal of type \<^verbatim>\<open>double\<close>.\<close>

definition i2f :: "cint \<Rightarrow> cfloat" where
  "i2f i = round32 (of_int (sint i))"

definition i2d :: "cint \<Rightarrow> cdouble" where
  "i2d i = round64 (of_int (sint i))"

definition f2d :: "cfloat \<Rightarrow> cdouble" where
  "f2d x = x"

definition d2f :: "cdouble \<Rightarrow> cfloat" where
  "d2f x = round32 x"

definition dlit :: "rat \<Rightarrow> cdouble" where
  "dlit q = round64 q"

text \<open>
  Conversion of a floating value to \<^verbatim>\<open>int\<close> discards the fraction (\<open>trunc\<close>). C leaves the
  conversion undefined when the integral part does not fit; the SSE conversion instructions
  of x86 then deliver \<^verbatim>\<open>INT_MIN\<close>, which is what \<open>to_int\<close> returns.
\<close>

definition trunc :: "rat \<Rightarrow> int" where
  "trunc x = (if 0 \<le> x then \<lfloor>x\<rfloor> else \<lceil>x\<rceil>)"

definition to_int :: "rat \<Rightarrow> cint" where
  "to_int x = (let z = trunc x
               in if - 2147483648 \<le> z \<and> z \<le> 2147483647 then word_of_int z else - 2147483648)"

subsection \<open>Definitions, global constants and global variables\<close>

record vpipe =
  opening_height :: cfloat
  center :: cint

record flappy =
  h0 :: cint
  t :: cint

definition GRAV :: cfloat where
  "GRAV = d2f (dlit (1 / 20))"

definition V0 :: cfloat where
  "V0 = d2f (- dlit (1 / 2))"

definition NUM_ROWS :: cint where
  "NUM_ROWS = 24"

definition NUM_COLS :: cint where
  "NUM_COLS = 80"

definition PIPE_RADIUS :: cint where
  "PIPE_RADIUS = 3"

definition OPENING_WIDTH :: cint where
  "OPENING_WIDTH = 7"

definition FLAPPY_COL :: cint where
  "FLAPPY_COL = 10"

text \<open>From the headers: \<^verbatim>\<open>INT_MAX\<close> of \<^verbatim>\<open>limits.h\<close> for a 32-bit \<^verbatim>\<open>int\<close>, the key code
  \<^verbatim>\<open>KEY_UP\<close> of \<^verbatim>\<open>ncurses.h\<close> (octal 0403), and the character \<^verbatim>\<open>'q'\<close>.\<close>

definition INT_MAX :: cint where
  "INT_MAX = 2147483647"

definition KEY_UP :: cint where
  "KEY_UP = 259"

definition CHAR_q :: cint where
  "CHAR_q = 113"

text \<open>
  The global variables. \<open>rand_state\<close> is the hidden state of the C library's generator, as
  the sequence of values the coming calls of \<^verbatim>\<open>rand\<close> return. \<^verbatim>\<open>rand\<close> returns an
  \<^verbatim>\<open>int\<close> between 0 and \<^verbatim>\<open>RAND_MAX\<close>, which is \<^verbatim>\<open>INT_MAX\<close> in glibc: the values of a
  31-bit word.
\<close>

record globals =
  frame :: cint
  score :: cint
  sdigs :: cint
  best_score :: cint
  bdigs :: cint
  p1 :: vpipe
  p2 :: vpipe
  rand_state :: "nat \<Rightarrow> 31 word"

definition rand :: "globals \<Rightarrow> cint \<times> globals" where
  "rand g = (ucast (rand_state g 0), g\<lparr>rand_state := (\<lambda>n. rand_state g (Suc n))\<rparr>)"

text \<open>\<^verbatim>\<open>pipe_refresh\<close> takes a pointer to one of the two global pipes.\<close>

datatype pipe_ref = P1 | P2

fun get_pipe :: "pipe_ref \<Rightarrow> globals \<Rightarrow> vpipe" where
  "get_pipe P1 g = p1 g"
| "get_pipe P2 g = p2 g"

fun set_pipe :: "pipe_ref \<Rightarrow> vpipe \<Rightarrow> globals \<Rightarrow> globals" where
  "set_pipe P1 p g = g\<lparr>p1 := p\<rparr>"
| "set_pipe P2 p g = g\<lparr>p2 := p\<rparr>"

subsection \<open>Functions\<close>

text \<open>
  The expression \<^verbatim>\<open>rand() / ((float) INT_MAX) * 0.5 + 0.25\<close>, which the source writes out
  at each of its three uses and stores into a \<^verbatim>\<open>float\<close>: the quotient is computed in
  \<^verbatim>\<open>float\<close>, the product and the sum in \<^verbatim>\<open>double\<close>.
\<close>

definition opening_of_rand :: "cint \<Rightarrow> cfloat" where
  "opening_of_rand r =
     d2f (dadd (dmul (f2d (fdiv (i2f r) (i2f INT_MAX))) (dlit (1 / 2))) (dlit (1 / 4)))"

definition pipe_refresh :: "pipe_ref \<Rightarrow> globals \<Rightarrow> globals" where
  "pipe_refresh ref g =
     (let p = get_pipe ref g;
          g' = (if center p + PIPE_RADIUS <s 0 then
                  (let ga = set_pipe ref (p\<lparr>center := NUM_COLS + PIPE_RADIUS\<rparr>) g;
                       (r, gb) = rand ga;
                       gc = set_pipe ref ((get_pipe ref gb)\<lparr>opening_height := opening_of_rand r\<rparr>) gb;
                       gd = gc\<lparr>score := score gc + 1\<rparr>
                   in if sdigs gd = 1 \<and> 9 <s score gd then gd\<lparr>sdigs := sdigs gd + 1\<rparr>
                      else if sdigs gd = 2 \<and> 99 <s score gd then gd\<lparr>sdigs := sdigs gd + 1\<rparr>
                      else gd)
                else g);
          q = get_pipe ref g'
      in set_pipe ref (q\<lparr>center := center q - 1\<rparr>) g')"

definition get_orow :: "vpipe \<Rightarrow> cint \<Rightarrow> cint" where
  "get_orow p tp =
     to_int (fsub (fmul (opening_height p) (i2f (NUM_ROWS - 1)))
                  (i2f (c_div ((if tp \<noteq> 0 then 1 else - 1) * OPENING_WIDTH) 2)))"

text \<open>
  \<^verbatim>\<open>get_flappy_position\<close> returns \<^verbatim>\<open>f.h0 + V0 * f.t + 0.5 * GRAV * f.t * f.t\<close> as an
  \<^verbatim>\<open>int\<close>. \<open>flappy_arc\<close> is the value of that expression: the first sum is computed in
  \<^verbatim>\<open>float\<close>, the products with the literal \<^verbatim>\<open>0.5\<close> and the last sum in \<^verbatim>\<open>double\<close>.
\<close>

definition flappy_arc :: "flappy \<Rightarrow> cdouble" where
  "flappy_arc b =
     dadd (f2d (fadd (i2f (h0 b)) (fmul V0 (i2f (t b)))))
          (dmul (dmul (dmul (dlit (1 / 2)) (f2d GRAV)) (i2d (t b))) (i2d (t b)))"

definition get_flappy_position :: "flappy \<Rightarrow> cint" where
  "get_flappy_position b = to_int (flappy_arc b)"

definition crashed_into_pipe :: "flappy \<Rightarrow> vpipe \<Rightarrow> cint" where
  "crashed_into_pipe b p =
     (if center p - PIPE_RADIUS - 1 \<le>s FLAPPY_COL \<and> FLAPPY_COL \<le>s center p + PIPE_RADIUS + 1 then
        (if get_orow p 1 + 1 \<le>s get_flappy_position b \<and>
            get_flappy_position b \<le>s get_orow p 0 - 1
         then 0 else 1)
      else 0)"

text \<open>
  A call either returns a value or ends the process through \<^verbatim>\<open>exit(0)\<close>; both carry the
  variables as they are at that moment.
\<close>

datatype ('r, 's) result = Exit 's | Return 'r 's

text \<open>
  \<^verbatim>\<open>failure_screen\<close> blocks in \<^verbatim>\<open>getch\<close>; \<open>k\<close> is the key code it delivers, which the
  source stores into a \<^verbatim>\<open>char\<close>.
\<close>

definition failure_screen :: "cint \<Rightarrow> globals \<Rightarrow> (cint, globals) result" where
  "failure_screen k g =
     (let ch = (ucast k :: 8 word)
      in if ch = ucast CHAR_q then Exit g
         else
           (let g1 = (if best_score g <s score g then g\<lparr>best_score := score g\<rparr> else g);
                g2 = (if bdigs g1 = 1 \<and> 9 <s best_score g1 then g1\<lparr>bdigs := bdigs g1 + 1\<rparr>
                      else if bdigs g1 = 2 \<and> 99 <s best_score g1 then g1\<lparr>bdigs := bdigs g1 + 1\<rparr>
                      else g1)
            in Return 1 (g2\<lparr>score := 0, sdigs := 1\<rparr>)))"

text \<open>
  \<^verbatim>\<open>draw_flappy\<close>: the two collision tests, then the sprite (not modelled). \<open>k\<close> is the key
  the failure screen would read.
\<close>

definition draw_flappy :: "cint \<Rightarrow> flappy \<Rightarrow> globals \<Rightarrow> (cint, globals) result" where
  "draw_flappy k b g =
     (let h = get_flappy_position b
      in if h \<le>s 0 \<or> NUM_ROWS - 1 \<le>s h then failure_screen k g
         else if crashed_into_pipe b (p1 g) \<noteq> 0 \<or> crashed_into_pipe b (p2 g) \<noteq> 0
              then failure_screen k g
         else Return 0 g)"

subsection \<open>Main\<close>

text \<open>The local variables of \<^verbatim>\<open>main\<close> that live across iterations of its loop.\<close>

record locals =
  leave_loop :: cint
  f :: flappy
  restart :: cint

text \<open>The initialisations at the start of a game.\<close>

definition start_game :: "locals \<times> globals \<Rightarrow> locals \<times> globals" where
  "start_game s =
     (let (l, g) = s;
          g1 = g\<lparr>p1 := (p1 g)\<lparr>center := to_int (dmul (dlit (6 / 5)) (i2d (NUM_COLS - 1)))\<rparr>\<rparr>;
          (r1, g2) = rand g1;
          g3 = g2\<lparr>p1 := (p1 g2)\<lparr>opening_height := opening_of_rand r1\<rparr>\<rparr>;
          g4 = g3\<lparr>p2 := (p2 g3)\<lparr>center := to_int (dmul (dlit (7 / 4)) (i2d (NUM_COLS - 1)))\<rparr>\<rparr>;
          (r2, g5) = rand g4;
          g6 = g5\<lparr>p2 := (p2 g5)\<lparr>opening_height := opening_of_rand r2\<rparr>\<rparr>
      in (l\<lparr>f := \<lparr>h0 = c_div NUM_ROWS 2, t = 0\<rparr>, restart := 0\<rparr>, g6))"

text \<open>The keystroke switch of the loop, for a key other than \<^verbatim>\<open>'q'\<close>.\<close>

definition process_key :: "cint \<Rightarrow> flappy \<Rightarrow> flappy" where
  "process_key ch b =
     (if ch = KEY_UP then \<lparr>h0 = get_flappy_position b, t = 0\<rparr>
      else b\<lparr>t := t b + 1\<rparr>)"

text \<open>
  One iteration of the loop of \<^verbatim>\<open>main\<close>. \<open>ch\<close> is what the non-blocking \<^verbatim>\<open>getch\<close> delivers
  (\<open>-1\<close> when no key is waiting) and \<open>k\<close> the key the failure screen reads, should Flappy
  crash in this iteration.
\<close>

definition main_loop_body :: "cint \<Rightarrow> cint \<Rightarrow> locals \<times> globals \<Rightarrow> (unit, locals \<times> globals) result" where
  "main_loop_body ch k s =
     (let (l, g) = (if restart (fst s) \<noteq> 0 then start_game s else s)
      in if ch = CHAR_q then Exit (l, g)
         else
           (let l1 = l\<lparr>f := process_key ch (f l)\<rparr>;
                g1 = pipe_refresh P2 (pipe_refresh P1 g)
            in case draw_flappy k (f l1) g1 of
                 Exit g2 \<Rightarrow> Exit (l1, g2)
               | Return r g2 \<Rightarrow>
                   if r \<noteq> 0 then Return () (l1\<lparr>restart := 1\<rparr>, g2)
                   else Return () (l1, g2\<lparr>frame := frame g2 + 1\<rparr>)))"

text \<open>
  The loop, run on the keys of finitely many iterations: one pair \<open>(ch, k)\<close> for each. The
  source's loop has no other end than \<^verbatim>\<open>exit\<close>, since \<^verbatim>\<open>leave_loop\<close> is never set.
\<close>

fun main_loop :: "(cint \<times> cint) list \<Rightarrow> locals \<times> globals \<Rightarrow> (unit, locals \<times> globals) result" where
  "main_loop [] s = Return () s"
| "main_loop ((ch, k) # ks) s =
     (if leave_loop (fst s) \<noteq> 0 then Return () s
      else case main_loop_body ch k s of
             Exit s' \<Rightarrow> Exit s'
           | Return u s' \<Rightarrow> main_loop ks s')"

text \<open>The state in which \<^verbatim>\<open>main\<close> enters its loop: the initialisers of the global
  variables, \<^verbatim>\<open>restart = 1\<close>, and the generator as \<^verbatim>\<open>srand\<close> left it.\<close>

definition initial_state :: "(nat \<Rightarrow> 31 word) \<Rightarrow> flappy \<Rightarrow> locals \<times> globals" where
  "initial_state rs b =
     (\<lparr>leave_loop = 0, f = b, restart = 1\<rparr>,
      \<lparr>frame = 0, score = 0, sdigs = 1, best_score = 0, bdigs = 1,
       p1 = \<lparr>opening_height = 0, center = 0\<rparr>, p2 = \<lparr>opening_height = 0, center = 0\<rparr>,
       rand_state = rs\<rparr>)"

fun state_of :: "('r, 's) result \<Rightarrow> 's" where
  "state_of (Exit s) = s"
| "state_of (Return r s) = s"

subsection \<open>The formulas of the specification, and sample states\<close>

text \<open>
  The kinematic formula as the specification words it, on exact numbers, with gravity
  0.05 and initial velocity -0.5: \<open>launchHeight + V0 \<cdot> t + 0.5 \<cdot> GRAVITY \<cdot> t\<^sup>2\<close>.
\<close>

definition kinematic_position :: "rat \<Rightarrow> rat \<Rightarrow> rat" where
  "kinematic_position h n = h + (- 1 / 2) * n + (1 / 2) * (1 / 20) * n * n"

text \<open>
  The rows of the opening as the specification words them, on exact numbers:
  \<open>openingFraction \<cdot> (numRows - 1)\<close> minus (top) or plus (bottom) \<open>openingWidth / 2\<close>, the
  half-width being 3.5.
\<close>

definition opening_row_spec :: "rat \<Rightarrow> bool \<Rightarrow> rat" where
  "opening_row_spec fraction is_top =
     (if is_top then fraction * (24 - 1) - 7 / 2 else fraction * (24 - 1) + 7 / 2)"

text \<open>Sample states: a generator that returns the same value at every call, a pipe pair,
  and the variables of a game in which 5 pipes have been passed.\<close>

definition sample_globals :: "31 word \<Rightarrow> cint \<Rightarrow> cint \<Rightarrow> globals" where
  "sample_globals rv c1 c2 =
     \<lparr>frame = 0, score = 5, sdigs = 1, best_score = 3, bdigs = 1,
      p1 = \<lparr>opening_height = 1 / 2, center = c1\<rparr>,
      p2 = \<lparr>opening_height = 1 / 2, center = c2\<rparr>,
      rand_state = (\<lambda>n. rv)\<rparr>"

definition sample_state :: "cint \<Rightarrow> cint \<Rightarrow> locals \<times> globals" where
  "sample_state h n =
     (\<lparr>leave_loop = 0, f = \<lparr>h0 = h, t = n\<rparr>, restart = 0\<rparr>, sample_globals 7 40 84)"


section \<open>Two's complement arithmetic on 32 bits\<close>

lemma stb31:
  fixes s :: int
  assumes "- 4294967296 \<le> s" "s < 4294967296"
  shows "signed_take_bit 31 s =
     (if s < - 2147483648 then s + 4294967296 else if 2147483648 \<le> s then s - 4294967296 else s)"
proof -
  have m: "signed_take_bit 31 s = (s + 2147483648) mod 4294967296 - 2147483648"
    by (simp add: signed_take_bit_eq_take_bit_shift take_bit_eq_mod)
  consider "s < - 2147483648" | "- 2147483648 \<le> s \<and> s < 2147483648" | "2147483648 \<le> s"
    by linarith
  then show ?thesis
  proof cases
    case 1
    have "(s + 2147483648) mod 4294967296 = (s + 2147483648 + 4294967296) mod 4294967296"
      by (metis mod_add_self2)
    also have "\<dots> = s + 2147483648 + 4294967296"
      using 1 assms by (intro mod_pos_pos_trivial) auto
    finally show ?thesis using 1 m by simp
  next
    case 2
    have "(s + 2147483648) mod 4294967296 = s + 2147483648"
      using 2 by (intro mod_pos_pos_trivial) auto
    then show ?thesis using 2 m by simp
  next
    case 3
    have "(s + 2147483648) mod 4294967296 = (s + 2147483648 - 4294967296) mod 4294967296"
      by (metis minus_mod_self2)
    also have "\<dots> = s + 2147483648 - 4294967296"
      using 3 assms by (intro mod_pos_pos_trivial) auto
    finally show ?thesis using 3 m by simp
  qed
qed

lemma sint32_bounds: "- 2147483648 \<le> sint (a::cint)" "sint (a::cint) < 2147483648"
  using sint_ge [of a] sint_lt [of a] by simp_all

lemma sint_add32:
  "sint (a + b :: cint) =
     (if sint a + sint b < - 2147483648 then sint a + sint b + 4294967296
      else if 2147483648 \<le> sint a + sint b then sint a + sint b - 4294967296
      else sint a + sint b)"
proof -
  have "sint (a + b) = signed_take_bit 31 (sint a + sint b)"
    by (simp add: sint_word_ariths)
  then show ?thesis
    using stb31 [of "sint a + sint b"] sint32_bounds [of a] sint32_bounds [of b] by simp
qed

lemma sint_sub32:
  "sint (a - b :: cint) =
     (if sint a - sint b < - 2147483648 then sint a - sint b + 4294967296
      else if 2147483648 \<le> sint a - sint b then sint a - sint b - 4294967296
      else sint a - sint b)"
proof -
  have "sint (a - b) = signed_take_bit 31 (sint a - sint b)"
    by (simp add: sint_word_ariths)
  then show ?thesis
    using stb31 [of "sint a - sint b"] sint32_bounds [of a] sint32_bounds [of b] by simp
qed

lemma sint_eq_numeral: "sint (c::cint) = z \<Longrightarrow> c = word_of_int z"
  by auto

text \<open>The wrap test of \<^verbatim>\<open>pipe_refresh\<close>, read on the integers: it holds when the center
  is left of \<open>-3\<close>, and also for the three largest centers, where the sum overflows.\<close>

lemma wrap_cond_iff: "(c + PIPE_RADIUS <s 0) \<longleftrightarrow> (sint c < - 3 \<or> 2147483644 < sint c)"
  for c :: cint
  using sint32_bounds [of c]
  by (auto simp add: word_sless_alt sint_add32 PIPE_RADIUS_def)

section \<open>The pipes\<close>

lemma get_set_pipe_same: "get_pipe r (set_pipe r p g) = p"
  by (cases r) simp_all

lemma set_pipe_fields:
  "score (set_pipe r p g) = score g" "sdigs (set_pipe r p g) = sdigs g"
  "best_score (set_pipe r p g) = best_score g" "bdigs (set_pipe r p g) = bdigs g"
  "rand_state (set_pipe r p g) = rand_state g" "frame (set_pipe r p g) = frame g"
  by (cases r; simp)+

lemma pipe_refresh_wrap:
  assumes "center (get_pipe r g) + PIPE_RADIUS <s 0"
  shows "center (get_pipe r (pipe_refresh r g)) = NUM_COLS + PIPE_RADIUS - 1"
    and "opening_height (get_pipe r (pipe_refresh r g)) = opening_of_rand (ucast (rand_state g 0))"
    and "score (pipe_refresh r g) = score g + 1"
    and "rand_state (pipe_refresh r g) = (\<lambda>n. rand_state g (Suc n))"
  using assms by (cases r; simp add: pipe_refresh_def rand_def Let_def)+

lemma pipe_refresh_stay:
  assumes "\<not> center (get_pipe r g) + PIPE_RADIUS <s 0"
  shows "pipe_refresh r g = set_pipe r ((get_pipe r g)\<lparr>center := center (get_pipe r g) - 1\<rparr>) g"
  using assms by (simp add: pipe_refresh_def Let_def)

lemma pipe_refresh_other: "r \<noteq> r' \<Longrightarrow> get_pipe r (pipe_refresh r' g) = get_pipe r g"
  by (cases r; cases r'; simp add: pipe_refresh_def rand_def Let_def)

lemma pipe_refresh_best: "best_score (pipe_refresh r g) = best_score g"
  and pipe_refresh_bdigs: "bdigs (pipe_refresh r g) = bdigs g"
  and pipe_refresh_frame: "frame (pipe_refresh r g) = frame g"
  by (cases r; simp add: pipe_refresh_def rand_def Let_def)+

lemma pipe_refresh_center_ge:
  assumes "- 4 \<le> sint (center (get_pipe r g))"
  shows "- 4 \<le> sint (center (get_pipe r (pipe_refresh r' g)))"
proof (cases "r = r'")
  case False
  then show ?thesis using assms by (simp add: pipe_refresh_other)
next
  case True
  show ?thesis
  proof (cases "center (get_pipe r g) + PIPE_RADIUS <s 0")
    case w: True
    then show ?thesis using True pipe_refresh_wrap(1) [of r g]
      by (simp add: NUM_COLS_def PIPE_RADIUS_def)
  next
    case w: False
    then show ?thesis using True assms
      by (simp add: pipe_refresh_stay get_set_pipe_same wrap_cond_iff sint_sub32)
  qed
qed

lemma foldl_refresh_center_ge:
  "- 4 \<le> sint (center (get_pipe r g)) \<Longrightarrow>
   - 4 \<le> sint (center (get_pipe r (foldl (\<lambda>g r'. pipe_refresh r' g) g rs)))"
  by (induction rs arbitrary: g) (simp_all add: pipe_refresh_center_ge)

lemma spawn1: "to_int (dmul (dlit (6 / 5)) (i2d (NUM_COLS - 1))) = 94"
  by code_simp

lemma spawn2: "to_int (dmul (dlit (7 / 4)) (i2d (NUM_COLS - 1))) = 138"
  by code_simp

lemma start_game_centers:
  "center (p1 (snd (start_game s))) = 94" "center (p2 (snd (start_game s))) = 138"
  by (simp_all add: start_game_def rand_def Let_def split_beta spawn1 spawn2)

text \<open>As long as the center stays at \<open>-3\<close> or right of it, \<open>k\<close> calls move the pipe \<open>k\<close>
  columns to the left and change nothing else.\<close>

lemma refresh_steps:
  "int k \<le> sint (center (get_pipe r g)) + 4 \<Longrightarrow> sint (center (get_pipe r g)) \<le> 2147483644 \<Longrightarrow>
   \<exists>c'. (pipe_refresh r ^^ k) g = set_pipe r ((get_pipe r g)\<lparr>center := c'\<rparr>) g \<and>
        sint c' = sint (center (get_pipe r g)) - int k"
proof (induction k)
  case 0
  have "g = set_pipe r ((get_pipe r g)\<lparr>center := center (get_pipe r g)\<rparr>) g"
    by (cases r) simp_all
  then have "(pipe_refresh r ^^ 0) g = set_pipe r ((get_pipe r g)\<lparr>center := center (get_pipe r g)\<rparr>) g \<and>
     sint (center (get_pipe r g)) = sint (center (get_pipe r g)) - int 0" by simp
  then show ?case by (rule exI)
next
  case (Suc k)
  let ?c = "center (get_pipe r g)"
  from Suc obtain c' where ih: "(pipe_refresh r ^^ k) g = set_pipe r ((get_pipe r g)\<lparr>center := c'\<rparr>) g"
    and c': "sint c' = sint ?c - int k" by auto
  let ?g = "set_pipe r ((get_pipe r g)\<lparr>center := c'\<rparr>) g"
  have "\<not> center (get_pipe r ?g) + PIPE_RADIUS <s 0"
    using Suc.prems c' by (simp add: get_set_pipe_same wrap_cond_iff)
  then have "pipe_refresh r ?g = set_pipe r ((get_pipe r ?g)\<lparr>center := center (get_pipe r ?g) - 1\<rparr>) ?g"
    by (rule pipe_refresh_stay)
  then have "(pipe_refresh r ^^ Suc k) g = set_pipe r ((get_pipe r g)\<lparr>center := c' - 1\<rparr>) g"
    using ih by (cases r) simp_all
  moreover have "sint (c' - 1) = sint ?c - int (Suc k)"
    using Suc.prems c' by (simp add: sint_sub32)
  ultimately show ?case by blast
qed

section \<open>Rounding\<close>

lemma powi_pos [simp]: "0 < (2::rat) powi k"
  by (simp add: power_int_def)

lemma quotient_of_pos:
  assumes "0 < x" "quotient_of x = (p, q)"
  shows "0 < p" "0 < q" "x = of_int p / of_int q"
proof -
  show q: "0 < q" using assms(2) by (rule quotient_of_denom_pos)
  show x: "x = of_int p / of_int q" using assms(2) by (rule quotient_of_div)
  from assms(1) x q show "0 < p" by (simp add: zero_less_divide_iff)
qed

lemma bitlen_powi_bounds:
  assumes "0 < (n::int)"
  shows "2 powi (bitlen n - 1) \<le> (of_int n :: rat)" "(of_int n :: rat) < 2 powi (bitlen n)"
proof -
  from assms have b1: "1 \<le> bitlen n" using bitlen_eq_zero_iff [of n] bitlen_nonneg [of n] by linarith
  from bitlen_bounds [OF assms] have lo: "2 ^ nat (bitlen n - 1) \<le> n" and hi: "n < 2 ^ nat (bitlen n)"
    by simp_all
  have "(2::rat) powi (bitlen n - 1) = 2 ^ nat (bitlen n - 1)"
    using b1 by (simp add: power_int_def)
  also have "\<dots> = of_int (2 ^ nat (bitlen n - 1))" by simp
  also have "\<dots> \<le> of_int n" using lo by (simp only: of_int_le_iff)
  finally show "2 powi (bitlen n - 1) \<le> (of_int n :: rat)" .
  have "(of_int n :: rat) < of_int (2 ^ nat (bitlen n))" using hi by (simp only: of_int_less_iff)
  also have "\<dots> = 2 ^ nat (bitlen n)" by simp
  also have "\<dots> = 2 powi (bitlen n)" using b1 by (simp add: power_int_def)
  finally show "(of_int n :: rat) < 2 powi (bitlen n)" .
qed

lemma ilog2_bounds:
  assumes "0 < x"
  shows "2 powi (ilog2 x) \<le> x \<and> x < 2 powi (ilog2 x + 1)"
proof -
  obtain p q where pq: "quotient_of x = (p, q)" by (cases "quotient_of x")
  from quotient_of_pos [OF assms pq] have p: "0 < p" and q: "0 < q" and x: "x = of_int p / of_int q"
    by simp_all
  define k where "k = bitlen p - bitlen q"
  note bp = bitlen_powi_bounds [OF p] and bq = bitlen_powi_bounds [OF q]
  have qpos: "0 < (of_int q :: rat)" using q by simp
  have "x < 2 powi (bitlen p) / 2 powi (bitlen q - 1)"
    unfolding x using bp(2) bq(1) p
    by (intro frac_less) simp_all
  also have "\<dots> = 2 powi (bitlen p - (bitlen q - 1))"
    by (simp add: power_int_diff)
  also have "bitlen p - (bitlen q - 1) = k + 1"
    by (simp add: k_def)
  finally have hi: "x < 2 powi (k + 1)" .
  have "k - 1 = bitlen p - 1 - bitlen q"
    by (simp add: k_def)
  then have "(2::rat) powi (k - 1) = 2 powi (bitlen p - 1 - bitlen q)"
    by (rule arg_cong)
  also have "\<dots> = 2 powi (bitlen p - 1) / 2 powi (bitlen q)"
    by (simp add: power_int_diff)
  also have "\<dots> < x"
    unfolding x using bp(1) bq(2) qpos
    by (intro frac_less2) simp_all
  finally have lo: "2 powi (k - 1) < x" .
  have il: "ilog2 x = (if 2 powi k \<le> x then k else k - 1)"
    by (simp add: ilog2_def pq k_def Let_def)
  show ?thesis
  proof (cases "2 powi k \<le> x")
    case True
    then show ?thesis using hi il by simp
  next
    case False
    then show ?thesis using lo il by simp
  qed
qed

lemma ilog2_less:
  assumes "0 < x" "x < 2 powi J"
  shows "ilog2 x < J"
proof (rule ccontr)
  assume "\<not> ilog2 x < J"
  then have "J \<le> ilog2 x" by simp
  then have "(2::rat) powi J \<le> 2 powi (ilog2 x)" by (intro power_int_increasing) simp_all
  with ilog2_bounds [OF assms(1)] assms(2) show False by linarith
qed

lemma rhe_bounds: "\<lfloor>x\<rfloor> \<le> round_half_even x \<and> round_half_even x \<le> \<lceil>x\<rceil>"
proof -
  have "x - of_int \<lfloor>x\<rfloor> > 0 \<Longrightarrow> \<lfloor>x\<rfloor> + 1 \<le> \<lceil>x\<rceil>"
    by (smt (verit) ceiling_altdef of_int_floor_cancel diff_gt_0_iff_gt order_less_irrefl order_refl)
  moreover have "\<lfloor>x\<rfloor> \<le> \<lceil>x\<rceil>" by (simp add: floor_le_ceiling)
  ultimately show ?thesis
    by (auto simp add: round_half_even_def Let_def)
qed

lemma rhe_of_int [simp]: "round_half_even (of_int n) = n"
  by (simp add: round_half_even_def)

lemma rhe_ge:
  assumes "of_int n \<le> x"
  shows "n \<le> round_half_even x"
proof -
  from assms have "n \<le> \<lfloor>x\<rfloor>" by (simp add: le_floor_iff)
  with rhe_bounds [of x] show ?thesis by linarith
qed

lemma rhe_le:
  assumes "x \<le> of_int n"
  shows "round_half_even x \<le> n"
proof -
  from assms have "\<lceil>x\<rceil> \<le> n" by (simp add: ceiling_le_iff)
  with rhe_bounds [of x] show ?thesis by linarith
qed

lemma powi_grid:
  assumes "e \<le> j"
  shows "of_int c * (2::rat) powi j = of_int (c * 2 ^ nat (j - e)) * 2 powi e"
proof -
  have "(2::rat) powi j = 2 powi ((j - e) + e)" by simp
  also have "\<dots> = 2 powi (j - e) * 2 powi e" by (rule power_int_add) simp
  also have "(2::rat) powi (j - e) = 2 ^ nat (j - e)" using assms by (simp add: power_int_def)
  finally show ?thesis by simp
qed

lemma round_to_unfold:
  assumes "x \<noteq> 0"
  shows "round_to p emin x =
           of_int (round_half_even (x / 2 powi (max (ilog2 \<bar>x\<bar>) emin - int p + 1))) *
           2 powi (max (ilog2 \<bar>x\<bar>) emin - int p + 1)"
  using assms by (simp add: round_to_def Let_def)

lemma round_to_0 [simp]: "round_to p emin 0 = 0"
  by (simp add: round_to_def)

lemma round_to_le:
  assumes "0 < x" "x < 2 powi J" "emin < J" "J - int p \<le> j" "x \<le> of_int c * 2 powi j"
  shows "round_to p emin x \<le> of_int c * 2 powi j"
proof -
  define e where "e = max (ilog2 \<bar>x\<bar>) emin - int p + 1"
  have "ilog2 \<bar>x\<bar> < J" using assms(1,2) by (intro ilog2_less) simp_all
  then have ej: "e \<le> j" using assms(3,4) by (simp add: e_def)
  define m where "m = c * 2 ^ nat (j - e)"
  have b: "of_int c * (2::rat) powi j = of_int m * 2 powi e"
    unfolding m_def using ej by (rule powi_grid)
  have "x / 2 powi e \<le> of_int m"
    using assms(5) b by (simp add: pos_divide_le_eq)
  then have "round_half_even (x / 2 powi e) \<le> m" by (rule rhe_le)
  then have "(of_int (round_half_even (x / 2 powi e)) :: rat) \<le> of_int m" by simp
  then have "of_int (round_half_even (x / 2 powi e)) * 2 powi e \<le> of_int m * (2::rat) powi e"
    by (intro mult_right_mono) simp_all
  then show ?thesis
    using assms(1) unfolding b e_def by (simp add: round_to_unfold)
qed

lemma round_to_ge:
  assumes "0 < x" "x < 2 powi J" "emin < J" "J - int p \<le> j" "of_int c * 2 powi j \<le> x"
  shows "of_int c * 2 powi j \<le> round_to p emin x"
proof -
  define e where "e = max (ilog2 \<bar>x\<bar>) emin - int p + 1"
  have "ilog2 \<bar>x\<bar> < J" using assms(1,2) by (intro ilog2_less) simp_all
  then have ej: "e \<le> j" using assms(3,4) by (simp add: e_def)
  define m where "m = c * 2 ^ nat (j - e)"
  have b: "of_int c * (2::rat) powi j = of_int m * 2 powi e"
    unfolding m_def using ej by (rule powi_grid)
  have "of_int m \<le> x / 2 powi e"
    using assms(5) b by (simp add: pos_le_divide_eq)
  then have "m \<le> round_half_even (x / 2 powi e)" by (rule rhe_ge)
  then have "(of_int m :: rat) \<le> of_int (round_half_even (x / 2 powi e))" by simp
  then have "of_int m * (2::rat) powi e \<le> of_int (round_half_even (x / 2 powi e)) * 2 powi e"
    by (intro mult_right_mono) simp_all
  then show ?thesis
    using assms(1) unfolding b e_def by (simp add: round_to_unfold)
qed

lemma round_to_nonneg:
  assumes "0 \<le> x"
  shows "0 \<le> round_to p emin x"
proof (cases "x = 0")
  case True
  then show ?thesis by simp
next
  case False
  have "(0::int) \<le> round_half_even (x / 2 powi (max (ilog2 \<bar>x\<bar>) emin - int p + 1))"
    using assms by (intro rhe_ge) simp
  then show ?thesis using False by (simp add: round_to_unfold)
qed

lemma round_to_exact:
  assumes "x = of_int c * 2 powi j" "\<bar>x\<bar> < 2 powi J" "emin < J" "J - int p \<le> j"
    "emin - int p + 1 \<le> j"
  shows "round_to p emin x = x"
proof (cases "x = 0")
  case True
  then show ?thesis by simp
next
  case False
  define e where "e = max (ilog2 \<bar>x\<bar>) emin - int p + 1"
  have "ilog2 \<bar>x\<bar> < J" using False assms(2) by (intro ilog2_less) simp_all
  then have ej: "e \<le> j" using assms(3,4,5) by (simp add: e_def)
  define m where "m = c * 2 ^ nat (j - e)"
  have b: "x = of_int m * 2 powi e"
    unfolding m_def assms(1) using ej by (rule powi_grid)
  then have "x / 2 powi e = of_int m" by simp
  then have "round_half_even (x / 2 powi e) = m" by simp
  then show ?thesis using False b unfolding e_def by (simp add: round_to_unfold)
qed

lemma round32_of_int:
  assumes "\<bar>n\<bar> < 16777216"
  shows "round32 (of_int n) = of_int n"
proof -
  have "\<bar>of_int n :: rat\<bar> < 2 powi 24"
    using assms by (simp flip: of_int_abs)
  then show ?thesis
    unfolding round32_def by (intro round_to_exact [where c = n and j = 0 and J = 24]) simp_all
qed

lemma round64_of_int:
  assumes "\<bar>n\<bar> < 9007199254740992"
  shows "round64 (of_int n) = of_int n"
proof -
  have "\<bar>of_int n :: rat\<bar> < 2 powi 53"
    using assms by (simp flip: of_int_abs)
  then show ?thesis
    unfolding round64_def by (intro round_to_exact [where c = n and j = 0 and J = 53]) simp_all
qed

lemma sint_rand: "sint (ucast (w :: 31 word) :: cint) = uint w"
proof -
  have b: "0 \<le> uint w" "uint w < 2147483648"
    using uint_bounded [of w] by simp_all
  have "take_bit 32 (uint w) = uint w"
    using b by (intro take_bit_int_eq_self) simp_all
  then have "sint (ucast w :: cint) = signed_take_bit 31 (uint w)"
    by (simp add: sint_uint unsigned_ucast_eq)
  also have "\<dots> = uint w"
  proof (rule signed_take_bit_int_eq_self)
    show "- (2 ^ 31) \<le> uint w" by (rule order_trans [OF _ uint_ge_0]) simp
    show "uint w < 2 ^ 31" using b(2) by simp
  qed
  finally show ?thesis .
qed

lemma i2f_INT_MAX: "i2f INT_MAX = 2147483648"
  by code_simp

lemma dlit_half: "dlit (1 / 2) = 1 / 2" and dlit_quarter: "dlit (1 / 4) = 1 / 4"
  by code_simp+

lemma opening_of_rand_bounds:
  assumes "0 \<le> sint r"
  shows "1 / 4 \<le> opening_of_rand r \<and> opening_of_rand r \<le> 3 / 4"
proof -
  define a1 where "a1 = i2f r"
  define a2 where "a2 = fdiv a1 (i2f INT_MAX)"
  define a3 where "a3 = dmul (f2d a2) (dlit (1 / 2))"
  define a4 where "a4 = dadd a3 (dlit (1 / 4))"
  have r: "(0::rat) \<le> of_int (sint r)" "(of_int (sint r) :: rat) < 2 powi 31"
    using assms sint32_bounds(2) [of r] by (simp_all del: of_int_sint)
  have a1: "0 \<le> a1 \<and> a1 \<le> 2147483648"
  proof (cases "sint r = 0")
    case True
    then show ?thesis by (simp add: a1_def i2f_def round32_def del: of_int_sint)
  next
    case False
    with assms have pos: "(0::rat) < of_int (sint r)" by (simp del: of_int_sint)
    have "round32 (of_int (sint r)) \<le> of_int 1 * 2 powi 31"
      unfolding round32_def using pos r(2)
      by (intro round_to_le [where J = 31]) simp_all
    then show ?thesis using round_to_nonneg [OF r(1), of 24 "- 126"]
      by (simp add: a1_def i2f_def round32_def del: of_int_sint)
  qed
  have a2: "0 \<le> a2 \<and> a2 \<le> 1"
  proof (cases "a1 = 0")
    case True
    then show ?thesis by (simp add: a2_def fdiv_def round32_def)
  next
    case False
    with a1 have pos: "0 < a1 / 2147483648" by simp
    have le: "a1 / 2147483648 \<le> 1" using a1 by simp
    have "round32 (a1 / 2147483648) \<le> of_int 1 * 2 powi 0"
      unfolding round32_def using pos le
      by (intro round_to_le [where J = 1]) simp_all
    moreover have "0 \<le> round32 (a1 / 2147483648)"
      unfolding round32_def using pos by (intro round_to_nonneg) simp
    ultimately show ?thesis by (simp add: a2_def fdiv_def i2f_INT_MAX)
  qed
  have a3: "0 \<le> a3 \<and> a3 \<le> 1 / 2"
  proof (cases "a2 = 0")
    case True
    then show ?thesis by (simp add: a3_def dmul_def f2d_def round64_def)
  next
    case False
    with a2 have pos: "0 < a2 * (1 / 2)" by simp
    have le: "a2 * (1 / 2) \<le> 1 / 2" using a2 by simp
    have "round64 (a2 * (1 / 2)) \<le> of_int 1 * 2 powi (- 1)"
      unfolding round64_def using pos le
      by (intro round_to_le [where J = 0]) (simp_all add: power_int_minus)
    moreover have "0 \<le> round64 (a2 * (1 / 2))"
      unfolding round64_def using pos by (intro round_to_nonneg) simp
    ultimately show ?thesis by (simp add: a3_def dmul_def f2d_def dlit_half power_int_minus)
  qed
  have pos4: "0 < a3 + 1 / 4" and lt4: "a3 + 1 / 4 < 2 powi 0" using a3 by simp_all
  have a4: "1 / 4 \<le> a4 \<and> a4 \<le> 3 / 4"
  proof -
    have "round64 (a3 + 1 / 4) \<le> of_int 3 * 2 powi (- 2)"
      unfolding round64_def using pos4 lt4 a3
      by (intro round_to_le [where J = 0]) (simp_all add: power_int_minus)
    moreover have "of_int 1 * 2 powi (- 2) \<le> round64 (a3 + 1 / 4)"
      unfolding round64_def using pos4 lt4 a3
      by (intro round_to_ge [where J = 0]) (simp_all add: power_int_minus)
    ultimately show ?thesis by (simp add: a4_def dadd_def dlit_quarter power_int_minus)
  qed
  have pos5: "0 < a4" and lt5: "a4 < 2 powi 0" using a4 by simp_all
  have "round32 a4 \<le> of_int 3 * 2 powi (- 2)"
    unfolding round32_def using pos5 lt5 a4
    by (intro round_to_le [where J = 0]) (simp_all add: power_int_minus)
  moreover have "of_int 1 * 2 powi (- 2) \<le> round32 a4"
    unfolding round32_def using pos5 lt5 a4
    by (intro round_to_ge [where J = 0]) (simp_all add: power_int_minus)
  moreover have "opening_of_rand r = round32 a4"
    by (simp add: opening_of_rand_def d2f_def a4_def a3_def a2_def a1_def)
  ultimately show ?thesis by (simp add: power_int_minus)
qed

section \<open>Collisions, the failure screen and the loop\<close>

lemma band_iff:
  "(center p - PIPE_RADIUS - 1 \<le>s FLAPPY_COL \<and> FLAPPY_COL \<le>s center p + PIPE_RADIUS + 1) \<longleftrightarrow>
   (sint (center p) - 3 - 1 \<le> 10 \<and> 10 \<le> sint (center p) + 3 + 1)"
  using sint32_bounds [of "center p"]
  by (auto simp add: word_sle_eq sint_add32 sint_sub32 PIPE_RADIUS_def FLAPPY_COL_def)

lemma rows_iff:
  fixes u v h :: cint
  assumes "sint u < 2147483647" "- 2147483648 < sint v"
  shows "(u + 1 \<le>s h \<and> h \<le>s v - 1) \<longleftrightarrow> (sint u + 1 \<le> sint h \<and> sint h \<le> sint v - 1)"
  using assms sint32_bounds [of u] sint32_bounds [of v]
  by (auto simp add: word_sle_eq sint_add32 sint_sub32)

lemma failure_screen_not_Return0: "failure_screen k g \<noteq> Return 0 g'"
  by (simp add: failure_screen_def Let_def)

lemma draw_flappy_cases:
  "draw_flappy k b g =
     (if (get_flappy_position b \<le>s 0 \<or> NUM_ROWS - 1 \<le>s get_flappy_position b) \<or>
         crashed_into_pipe b (p1 g) \<noteq> 0 \<or> crashed_into_pipe b (p2 g) \<noteq> 0
      then failure_screen k g else Return 0 g)"
  by (simp add: draw_flappy_def Let_def)

lemma start_game_scores:
  "score (snd (start_game s)) = score (snd s)" "sdigs (snd (start_game s)) = sdigs (snd s)"
  "best_score (snd (start_game s)) = best_score (snd s)" "bdigs (snd (start_game s)) = bdigs (snd s)"
  "frame (snd (start_game s)) = frame (snd s)"
  by (simp_all add: start_game_def rand_def Let_def split_beta)

lemma main_loop_body_quit:
  "main_loop_body CHAR_q k s = Exit (if restart (fst s) \<noteq> 0 then start_game s else s)"
  by (simp add: main_loop_body_def Let_def split_beta)

lemma failure_screen_restart:
  assumes "ucast k \<noteq> (ucast CHAR_q :: 8 word)"
  shows "\<exists>g'. failure_screen k g = Return 1 g' \<and>
              sint (best_score g') = max (sint (best_score g)) (sint (score g)) \<and>
              score g' = 0 \<and> sdigs g' = 1"
  using assms by (auto simp add: failure_screen_def Let_def word_sless_alt)

lemma failure_screen_quit:
  assumes "ucast k = (ucast CHAR_q :: 8 word)"
  shows "failure_screen k g = Exit g"
  using assms by (simp add: failure_screen_def Let_def)

lemma failure_screen_best_mono:
  "sint (best_score g) \<le> sint (best_score (state_of (failure_screen k g)))"
  by (auto simp add: failure_screen_def Let_def word_sless_alt)

lemma draw_flappy_best_mono:
  "sint (best_score g) \<le> sint (best_score (state_of (draw_flappy k b g)))"
  by (simp add: draw_flappy_cases failure_screen_best_mono)

lemma main_loop_body_best_mono:
  "sint (best_score (snd s)) \<le> sint (best_score (snd (state_of (main_loop_body ch k s))))"
proof (cases "ch = CHAR_q")
  case True
  then show ?thesis by (simp add: main_loop_body_quit start_game_scores)
next
  case False
  define s1 where "s1 = (if restart (fst s) \<noteq> 0 then start_game s else s)"
  define g1 where "g1 = pipe_refresh P2 (pipe_refresh P1 (snd s1))"
  define b where "b = process_key ch (f (fst s1))"
  have b1: "best_score g1 = best_score (snd s)"
    by (simp add: g1_def s1_def pipe_refresh_best start_game_scores)
  have "snd (state_of (main_loop_body ch k s)) = state_of (draw_flappy k b g1) \<or>
        snd (state_of (main_loop_body ch k s)) = (state_of (draw_flappy k b g1))\<lparr>frame := frame (state_of (draw_flappy k b g1)) + 1\<rparr>"
    using False unfolding main_loop_body_def s1_def [symmetric]
    by (cases "draw_flappy k b g1") (auto simp add: Let_def split_beta g1_def b_def)
  then have "best_score (snd (state_of (main_loop_body ch k s))) = best_score (state_of (draw_flappy k b g1))"
    by auto
  then show ?thesis using draw_flappy_best_mono [of g1 k b] b1 by simp
qed

lemma main_loop_best_mono:
  "sint (best_score (snd s)) \<le> sint (best_score (snd (state_of (main_loop ks s))))"
proof (induction ks arbitrary: s)
  case Nil
  then show ?case by simp
next
  case (Cons a ks)
  obtain ch k where a: "a = (ch, k)" by (cases a)
  show ?case
  proof (cases "leave_loop (fst s) \<noteq> 0")
    case True
    then show ?thesis by (simp add: a)
  next
    case False
    show ?thesis
    proof (cases "main_loop_body ch k s")
      case (Exit s')
      then show ?thesis using False main_loop_body_best_mono [of s ch k] by (simp add: a)
    next
      case (Return u s')
      then show ?thesis using False main_loop_body_best_mono [of s ch k] Cons.IH [of s']
        by (simp add: a)
    qed
  qed
qed

lemma failure_screen_changes:
  "best_score (state_of (failure_screen k g)) \<noteq> best_score g \<Longrightarrow>
   ucast k \<noteq> (ucast CHAR_q :: 8 word) \<and> (\<exists>g'. failure_screen k g = Return 1 g' \<and> score g' = 0)"
  by (auto simp add: failure_screen_def Let_def)

lemma main_loop_body_best_changes:
  assumes "best_score (snd (state_of (main_loop_body ch k s))) \<noteq> best_score (snd s)"
  shows "ucast k \<noteq> (ucast CHAR_q :: 8 word) \<and>
         (\<exists>s'. main_loop_body ch k s = Return () s' \<and> restart (fst s') = 1 \<and> score (snd s') = 0)"
proof (cases "ch = CHAR_q")
  case True
  then show ?thesis using assms
    by (cases "restart (fst s) = 0") (simp_all add: main_loop_body_quit start_game_scores)
next
  case False
  define s1 where "s1 = (if restart (fst s) \<noteq> 0 then start_game s else s)"
  define g1 where "g1 = pipe_refresh P2 (pipe_refresh P1 (snd s1))"
  define b where "b = process_key ch (f (fst s1))"
  have b1: "best_score g1 = best_score (snd s)"
    by (simp add: g1_def s1_def pipe_refresh_best start_game_scores)
  have body: "main_loop_body ch k s =
     (case draw_flappy k b g1 of
        Exit g2 \<Rightarrow> Exit ((fst s1)\<lparr>f := b\<rparr>, g2)
      | Return r g2 \<Rightarrow> if r \<noteq> 0 then Return () ((fst s1)\<lparr>f := b, restart := 1\<rparr>, g2)
                       else Return () ((fst s1)\<lparr>f := b\<rparr>, g2\<lparr>frame := frame g2 + 1\<rparr>))"
    using False unfolding main_loop_body_def s1_def [symmetric] g1_def b_def
    by (simp add: Let_def split_beta)
  show ?thesis
  proof (cases "draw_flappy k b g1 = Return 0 g1")
    case True
    then show ?thesis using assms b1 by (simp add: body)
  next
    case nr: False
    then have df: "draw_flappy k b g1 = failure_screen k g1"
      by (simp add: draw_flappy_cases split: if_splits)
    from assms b1 have "best_score (state_of (failure_screen k g1)) \<noteq> best_score g1"
      unfolding body df by (cases "failure_screen k g1") (auto split: if_splits)
    from failure_screen_changes [OF this] show ?thesis
      unfolding body df by auto
  qed
qed

section \<open>Openings and positions\<close>

lemma i2f_23: "i2f (NUM_ROWS - 1) = 23"
  by code_simp

lemma half_width: "c_div OPENING_WIDTH 2 = 3" "c_div (- OPENING_WIDTH) 2 = - 3"
  by code_simp+

lemma i2f_3: "i2f 3 = 3" "i2f (- 3) = - 3"
  by code_simp+

lemma get_orow_eq:
  "get_orow p tp =
     (if tp \<noteq> 0 then to_int (round32 (round32 (opening_height p * 23) - 3))
      else to_int (round32 (round32 (opening_height p * 23) + 3)))"
  by (simp add: get_orow_def fsub_def fmul_def i2f_23 half_width i2f_3)

lemma trunc_of_int [simp]: "trunc (of_int n) = n"
  by (simp add: trunc_def)

lemma to_int_of_int:
  assumes "- 2147483648 \<le> n" "n \<le> 2147483647"
  shows "to_int (of_int n) = word_of_int n"
  using assms by (simp add: to_int_def)

lemma round32_small_int:
  assumes "\<bar>n\<bar> \<le> 16777216"
  shows "round32 (of_int n) = of_int n"
proof -
  consider "\<bar>n\<bar> < 16777216" | "n = 16777216" | "n = - 16777216" using assms by linarith
  then show ?thesis
  proof cases
    case 1
    then show ?thesis by (rule round32_of_int)
  next
    case 2
    have "round32 16777216 = 16777216" by code_simp
    then show ?thesis using 2 by simp
  next
    case 3
    have "round32 (- 16777216) = - 16777216" by code_simp
    then show ?thesis using 3 by simp
  qed
qed

lemma V0_val: "V0 = - 1 / 2"
  by code_simp

lemma round32_0 [simp]: "round32 0 = 0" and round64_0 [simp]: "round64 0 = 0"
  by (simp_all add: round32_def round64_def)

lemma i2f_0: "i2f 0 = 0" and i2d_0: "i2d 0 = 0"
  by (simp_all add: i2f_def i2d_def)

lemma arc_at_launch:
  assumes "\<bar>sint h\<bar> \<le> 16777216"
  shows "flappy_arc \<lparr>h0 = h, t = 0\<rparr> = of_int (sint h)"
proof -
  have a: "round32 (of_int (sint h)) = of_int (sint h)"
    using assms by (rule round32_small_int)
  have b: "round64 (of_int (sint h)) = of_int (sint h)"
    using assms by (intro round64_of_int) linarith
  show ?thesis
    using a b
    by (simp add: flappy_arc_def i2f_0 i2d_0 fmul_def fadd_def dmul_def dadd_def f2d_def i2f_def
        del: of_int_sint)
qed

lemma position_at_launch:
  assumes "\<bar>sint h\<bar> \<le> 16777216"
  shows "get_flappy_position \<lparr>h0 = h, t = 0\<rparr> = h"
proof -
  have "to_int (of_int (sint h)) = word_of_int (sint h)"
    using assms by (intro to_int_of_int) linarith+
  moreover have "word_of_int (sint h) = h" by simp
  ultimately show ?thesis
    using arc_at_launch [OF assms] by (simp add: get_flappy_position_def del: of_int_sint)
qed

lemma sint_word_of_int32:
  assumes "- 2147483648 \<le> n" "n \<le> 2147483647"
  shows "sint (word_of_int n :: cint) = n"
proof -
  have "sint (word_of_int n :: cint) = signed_take_bit 31 n"
    by (simp add: sint_sbintrunc')
  also have "\<dots> = n" using assms stb31 [of n] by simp
  finally show ?thesis .
qed

lemma sint_to_int:
  assumes "0 \<le> z" "z < 2147483648"
  shows "sint (to_int z) = \<lfloor>z\<rfloor>"
proof -
  have "0 \<le> \<lfloor>z\<rfloor>" using assms(1) by simp
  moreover have "\<lfloor>z\<rfloor> < 2147483648" using assms(2) by (simp add: floor_less_iff)
  ultimately show ?thesis using assms(1)
    by (simp add: to_int_def trunc_def sint_word_of_int32)
qed

lemma round32_between:
  assumes "of_int a * 2 powi j \<le> x" "x \<le> of_int c * 2 powi j" "0 < x" "x < 2 powi J"
    "- 126 < J" "J - 24 \<le> j"
  shows "of_int a * 2 powi j \<le> round32 x \<and> round32 x \<le> of_int c * 2 powi j"
  unfolding round32_def using assms
  by (intro conjI round_to_ge [where J = J] round_to_le [where J = J]) simp_all

lemma orow_range:
  assumes "1 / 4 \<le> opening_height p" "opening_height p \<le> 3 / 4"
  shows "2 \<le> sint (get_orow p 1) \<and> sint (get_orow p 1) \<le> 14 \<and>
         8 \<le> sint (get_orow p 0) \<and> sint (get_orow p 0) \<le> 20"
proof -
  define y where "y = round32 (opening_height p * 23)"
  have "of_int 23 * 2 powi (- 2) \<le> round32 (opening_height p * 23) \<and>
        round32 (opening_height p * 23) \<le> of_int 69 * 2 powi (- 2)"
    using assms by (intro round32_between [where J = 5]) (simp_all add: power_int_minus)
  then have y: "23 / 4 \<le> y" "y \<le> 69 / 4" by (simp_all add: y_def power_int_minus)
  have "of_int 11 * 2 powi (- 2) \<le> round32 (y - 3) \<and> round32 (y - 3) \<le> of_int 57 * 2 powi (- 2)"
    using y by (intro round32_between [where J = 4]) (simp_all add: power_int_minus)
  then have z1: "11 / 4 \<le> round32 (y - 3)" "round32 (y - 3) \<le> 57 / 4"
    by (simp_all add: power_int_minus)
  have "of_int 35 * 2 powi (- 2) \<le> round32 (y + 3) \<and> round32 (y + 3) \<le> of_int 81 * 2 powi (- 2)"
    using y by (intro round32_between [where J = 5]) (simp_all add: power_int_minus)
  then have z0: "35 / 4 \<le> round32 (y + 3)" "round32 (y + 3) \<le> 81 / 4"
    by (simp_all add: power_int_minus)
  have t1: "sint (get_orow p 1) = \<lfloor>round32 (y - 3)\<rfloor>"
    using z1 by (simp add: get_orow_eq y_def [symmetric] sint_to_int)
  have t0: "sint (get_orow p 0) = \<lfloor>round32 (y + 3)\<rfloor>"
    using z0 by (simp add: get_orow_eq y_def [symmetric] sint_to_int)
  have "2 \<le> \<lfloor>round32 (y - 3)\<rfloor>" using z1 by (simp add: le_floor_iff)
  moreover have "\<lfloor>round32 (y - 3)\<rfloor> < 15" using z1 by (simp add: floor_less_iff)
  moreover have "8 \<le> \<lfloor>round32 (y + 3)\<rfloor>" using z0 by (simp add: le_floor_iff)
  moreover have "\<lfloor>round32 (y + 3)\<rfloor> < 21" using z0 by (simp add: floor_less_iff)
  ultimately show ?thesis using t1 t0 by simp
qed



section \<open>Iterations of the loop\<close>

lemma no_key_not_q: "(- 1 :: cint) \<noteq> CHAR_q" and no_key_not_up: "(- 1 :: cint) \<noteq> KEY_UP"
  by (simp_all add: CHAR_q_def KEY_UP_def)

lemma not_in_band:
  assumes "14 < sint (center p)"
  shows "crashed_into_pipe b p = 0"
  using assms by (simp add: crashed_into_pipe_def band_iff)

text \<open>An iteration without a key, a wrap or a crash: Flappy's clock advances, both pipes
  move one column, the frame is counted.\<close>

lemma main_loop_body_fly:
  assumes "restart (fst s) = 0" "ch \<noteq> CHAR_q"
    and "- 3 \<le> sint (center (p1 (snd s)))" "sint (center (p1 (snd s))) \<le> 2147483644"
    and "- 3 \<le> sint (center (p2 (snd s)))" "sint (center (p2 (snd s))) \<le> 2147483644"
    and "15 < sint (center (p1 (snd s)))" "15 < sint (center (p2 (snd s)))"
    and "0 < sint (get_flappy_position (process_key ch (f (fst s))))"
    and "sint (get_flappy_position (process_key ch (f (fst s)))) < 23"
  shows "\<exists>s'. main_loop_body ch k s = Return () s' \<and>
           f (fst s') = process_key ch (f (fst s)) \<and>
           restart (fst s') = 0 \<and> leave_loop (fst s') = leave_loop (fst s) \<and>
           center (p1 (snd s')) = center (p1 (snd s)) - 1 \<and>
           center (p2 (snd s')) = center (p2 (snd s)) - 1"
proof -
  obtain l g where s: "s = (l, g)" by (cases s)
  define b where "b = process_key ch (f l)"
  define g1 where "g1 = pipe_refresh P2 (pipe_refresh P1 g)"
  have w1: "\<not> center (get_pipe P1 g) + PIPE_RADIUS <s 0"
    using assms(3,4) by (simp add: s wrap_cond_iff)
  have r1: "pipe_refresh P1 g = g\<lparr>p1 := (p1 g)\<lparr>center := center (p1 g) - 1\<rparr>\<rparr>"
    using pipe_refresh_stay [OF w1] by simp
  have w2: "\<not> center (get_pipe P2 (pipe_refresh P1 g)) + PIPE_RADIUS <s 0"
    using assms(5,6) by (simp add: s r1 wrap_cond_iff)
  have g1: "g1 = g\<lparr>p1 := (p1 g)\<lparr>center := center (p1 g) - 1\<rparr>,
                    p2 := (p2 g)\<lparr>center := center (p2 g) - 1\<rparr>\<rparr>"
    unfolding g1_def using pipe_refresh_stay [OF w2] by (simp add: r1)
  have c1: "crashed_into_pipe b (p1 g1) = 0"
    using assms(3,7) sint32_bounds(2) [of "center (p1 g)"]
    by (intro not_in_band) (simp add: g1 s sint_sub32)
  have c2: "crashed_into_pipe b (p2 g1) = 0"
    using assms(5,8) sint32_bounds(2) [of "center (p2 g)"]
    by (intro not_in_band) (simp add: g1 s sint_sub32)
  have h: "\<not> (get_flappy_position b \<le>s 0 \<or> NUM_ROWS - 1 \<le>s get_flappy_position b)"
    using assms(9,10) by (simp add: b_def s word_sle_eq NUM_ROWS_def)
  have d: "draw_flappy k b g1 = Return 0 g1"
    using h c1 c2 by (simp add: draw_flappy_cases)
  have "main_loop_body ch k s = Return () (l\<lparr>f := b\<rparr>, g1\<lparr>frame := frame g1 + 1\<rparr>)"
    using assms(1,2) d unfolding main_loop_body_def s b_def g1_def
    by (simp add: Let_def)
  then show ?thesis
    using assms(1) by (simp add: s b_def g1)
qed

lemma arc_rows:
  "get_flappy_position \<lparr>h0 = 12, t = 1\<rparr> = 11" "get_flappy_position \<lparr>h0 = 12, t = 2\<rparr> = 11"
  "get_flappy_position \<lparr>h0 = 12, t = 3\<rparr> = 10" "get_flappy_position \<lparr>h0 = 12, t = 4\<rparr> = 10"
  "get_flappy_position \<lparr>h0 = 12, t = 5\<rparr> = 10"
  by code_simp+

lemma start_game_locals:
  "restart (fst (start_game s)) = 0" "leave_loop (fst (start_game s)) = leave_loop (fst s)"
  "f (fst (start_game s)) = \<lparr>h0 = 12, t = 0\<rparr>"
proof -
  have "c_div NUM_ROWS 2 = 12" by code_simp
  then show "restart (fst (start_game s)) = 0" "leave_loop (fst (start_game s)) = leave_loop (fst s)"
    "f (fst (start_game s)) = \<lparr>h0 = 12, t = 0\<rparr>"
    by (simp_all add: start_game_def Let_def split_beta)
qed

lemma main_loop_body_restart:
  "restart (fst s) \<noteq> 0 \<Longrightarrow> main_loop_body ch k s = main_loop_body ch k (start_game s)"
  by (simp add: main_loop_body_def start_game_locals)

text \<open>The first iterations of a game in which no key is pressed.\<close>

lemma fly_step:
  assumes "restart (fst s) = 0" "leave_loop (fst s) = 0"
    and "f (fst s) = \<lparr>h0 = 12, t = n\<rparr>"
    and "get_flappy_position \<lparr>h0 = 12, t = n + 1\<rparr> = h" "0 < sint h" "sint h < 23"
    and "sint (center (p1 (snd s))) = c1" "sint (center (p2 (snd s))) = c2"
    and "15 < c1" "c1 \<le> 200" "15 < c2" "c2 \<le> 200"
  shows "\<exists>s'. main_loop_body (- 1) k s = Return () s' \<and>
           restart (fst s') = 0 \<and> leave_loop (fst s') = 0 \<and>
           f (fst s') = \<lparr>h0 = 12, t = n + 1\<rparr> \<and>
           sint (center (p1 (snd s'))) = c1 - 1 \<and> sint (center (p2 (snd s'))) = c2 - 1"
proof -
  have pk: "process_key (- 1) (f (fst s)) = \<lparr>h0 = 12, t = n + 1\<rparr>"
    using no_key_not_up by (simp add: process_key_def assms(3))
  have "\<exists>s'. main_loop_body (- 1) k s = Return () s' \<and>
           f (fst s') = process_key (- 1) (f (fst s)) \<and>
           restart (fst s') = 0 \<and> leave_loop (fst s') = leave_loop (fst s) \<and>
           center (p1 (snd s')) = center (p1 (snd s)) - 1 \<and>
           center (p2 (snd s')) = center (p2 (snd s)) - 1"
    using assms no_key_not_q unfolding pk [symmetric]
    by (intro main_loop_body_fly) simp_all
  then obtain s' where s': "main_loop_body (- 1) k s = Return () s'"
    "f (fst s') = process_key (- 1) (f (fst s))"
    "restart (fst s') = 0" "leave_loop (fst s') = leave_loop (fst s)"
    "center (p1 (snd s')) = center (p1 (snd s)) - 1"
    "center (p2 (snd s')) = center (p2 (snd s)) - 1"
    by blast
  have "sint (center (p1 (snd s'))) = c1 - 1" "sint (center (p2 (snd s'))) = c2 - 1"
    using assms(7-12) by (simp_all add: s' sint_sub32)
  with s' pk assms(2) show ?thesis by simp
qed

lemma five_ticks:
  "\<exists>s'. main_loop (replicate 5 (- 1, k)) (initial_state rs b) = Return () s' \<and>
        f (fst s') = \<lparr>h0 = 12, t = 5\<rparr> \<and> restart (fst s') = 0"
proof -
  let ?ini = "initial_state rs b"
  let ?st = "start_game ?ini"
  have r: "restart (fst ?ini) \<noteq> 0" "leave_loop (fst ?ini) = 0"
    by (simp_all add: initial_state_def)
  have i0: "restart (fst ?st) = 0" "leave_loop (fst ?st) = 0" "f (fst ?st) = \<lparr>h0 = 12, t = 0\<rparr>"
    "sint (center (p1 (snd ?st))) = 94" "sint (center (p2 (snd ?st))) = 138"
    using r by (simp_all add: start_game_locals start_game_centers)
  from fly_step [OF i0(1,2,3) _ _ _ i0(4,5), of 11 k] arc_rows(1)
  obtain s1 where s1: "main_loop_body (- 1) k ?st = Return () s1" "restart (fst s1) = 0"
    "leave_loop (fst s1) = 0" "f (fst s1) = \<lparr>h0 = 12, t = 1\<rparr>"
    "sint (center (p1 (snd s1))) = 93" "sint (center (p2 (snd s1))) = 137"
    by auto
  from fly_step [OF s1(2,3,4) _ _ _ s1(5,6), of 11 k] arc_rows(2)
  obtain s2 where s2: "main_loop_body (- 1) k s1 = Return () s2" "restart (fst s2) = 0"
    "leave_loop (fst s2) = 0" "f (fst s2) = \<lparr>h0 = 12, t = 2\<rparr>"
    "sint (center (p1 (snd s2))) = 92" "sint (center (p2 (snd s2))) = 136"
    by auto
  from fly_step [OF s2(2,3,4) _ _ _ s2(5,6), of 10 k] arc_rows(3)
  obtain s3 where s3: "main_loop_body (- 1) k s2 = Return () s3" "restart (fst s3) = 0"
    "leave_loop (fst s3) = 0" "f (fst s3) = \<lparr>h0 = 12, t = 3\<rparr>"
    "sint (center (p1 (snd s3))) = 91" "sint (center (p2 (snd s3))) = 135"
    by auto
  from fly_step [OF s3(2,3,4) _ _ _ s3(5,6), of 10 k] arc_rows(4)
  obtain s4 where s4: "main_loop_body (- 1) k s3 = Return () s4" "restart (fst s4) = 0"
    "leave_loop (fst s4) = 0" "f (fst s4) = \<lparr>h0 = 12, t = 4\<rparr>"
    "sint (center (p1 (snd s4))) = 90" "sint (center (p2 (snd s4))) = 134"
    by auto
  from fly_step [OF s4(2,3,4) _ _ _ s4(5,6), of 10 k] arc_rows(5)
  obtain s5 where s5: "main_loop_body (- 1) k s4 = Return () s5" "restart (fst s5) = 0"
    "leave_loop (fst s5) = 0" "f (fst s5) = \<lparr>h0 = 12, t = 5\<rparr>"
    by auto
  have first: "main_loop_body (- 1) k ?ini = Return () s1"
    using main_loop_body_restart [OF r(1)] s1(1) by simp
  have "main_loop (replicate 5 (- 1, k)) ?ini = Return () s5"
    using r(2) first s1 s2 s3 s4 s5 by (simp add: numeral_eq_Suc)
  with s5(2,4) show ?thesis by blast
qed

lemma failure_screen_pipes:
  "p1 (state_of (failure_screen k g)) = p1 g" "p2 (state_of (failure_screen k g)) = p2 g"
  by (simp_all add: failure_screen_def Let_def)

lemma draw_flappy_pipes:
  "p1 (state_of (draw_flappy k b g)) = p1 g" "p2 (state_of (draw_flappy k b g)) = p2 g"
  by (simp_all add: draw_flappy_cases failure_screen_pipes)

lemma start_game_centers_ge:
  "- 4 \<le> sint (center (p1 (snd (start_game s))))" "- 4 \<le> sint (center (p2 (snd (start_game s))))"
  by (simp_all add: start_game_centers)

lemma main_loop_body_centers:
  assumes "- 4 \<le> sint (center (p1 (snd s)))" "- 4 \<le> sint (center (p2 (snd s)))"
  shows "- 4 \<le> sint (center (p1 (snd (state_of (main_loop_body ch k s))))) \<and>
         - 4 \<le> sint (center (p2 (snd (state_of (main_loop_body ch k s)))))"
proof -
  define s1 where "s1 = (if restart (fst s) \<noteq> 0 then start_game s else s)"
  have i1: "- 4 \<le> sint (center (get_pipe P1 (snd s1)))" "- 4 \<le> sint (center (get_pipe P2 (snd s1)))"
    using assms by (simp_all add: s1_def start_game_centers_ge)
  show ?thesis
  proof (cases "ch = CHAR_q")
    case True
    then show ?thesis using i1 by (simp add: main_loop_body_quit s1_def [symmetric])
  next
    case False
    define g1 where "g1 = pipe_refresh P2 (pipe_refresh P1 (snd s1))"
    define b where "b = process_key ch (f (fst s1))"
    have "- 4 \<le> sint (center (get_pipe P1 g1))"
      unfolding g1_def by (intro pipe_refresh_center_ge i1)
    moreover have "- 4 \<le> sint (center (get_pipe P2 g1))"
      unfolding g1_def by (intro pipe_refresh_center_ge i1)
    ultimately have i2: "- 4 \<le> sint (center (p1 g1))" "- 4 \<le> sint (center (p2 g1))"
      by simp_all
    have "snd (state_of (main_loop_body ch k s)) = state_of (draw_flappy k b g1) \<or>
          snd (state_of (main_loop_body ch k s)) =
            (state_of (draw_flappy k b g1))\<lparr>frame := frame (state_of (draw_flappy k b g1)) + 1\<rparr>"
      using False unfolding main_loop_body_def s1_def [symmetric] g1_def b_def
      by (cases "draw_flappy k (process_key ch (f (fst s1))) (pipe_refresh P2 (pipe_refresh P1 (snd s1)))")
        (auto simp add: Let_def split_beta)
    then have "p1 (snd (state_of (main_loop_body ch k s))) = p1 g1 \<and>
               p2 (snd (state_of (main_loop_body ch k s))) = p2 g1"
      by (auto simp add: draw_flappy_pipes)
    then show ?thesis using i2 by simp
  qed
qed

lemma main_loop_centers:
  "- 4 \<le> sint (center (p1 (snd s))) \<Longrightarrow> - 4 \<le> sint (center (p2 (snd s))) \<Longrightarrow>
   - 4 \<le> sint (center (p1 (snd (state_of (main_loop ks s))))) \<and>
   - 4 \<le> sint (center (p2 (snd (state_of (main_loop ks s)))))"
proof (induction ks arbitrary: s)
  case Nil
  then show ?case by simp
next
  case (Cons a ks)
  obtain ch k where a: "a = (ch, k)" by (cases a)
  show ?case
  proof (cases "leave_loop (fst s) \<noteq> 0")
    case True
    then show ?thesis using Cons.prems by (simp add: a)
  next
    case False
    note step = main_loop_body_centers [OF Cons.prems, of ch k]
    show ?thesis
    proof (cases "main_loop_body ch k s")
      case (Exit s')
      then show ?thesis using False step by (simp add: a)
    next
      case (Return u s')
      then show ?thesis using False step Cons.IH [of s'] by (simp add: a)
    qed
  qed
qed

lemma initial_centers:
  "- 4 \<le> sint (center (p1 (snd (initial_state rs b))))" "- 4 \<le> sint (center (p2 (snd (initial_state rs b))))"
  by (simp_all add: initial_state_def)

lemma main_loop_centers_initial:
  "- 4 \<le> sint (center (p1 (snd (state_of (main_loop ks (initial_state rs b)))))) \<and>
   - 4 \<le> sint (center (p2 (snd (state_of (main_loop ks (initial_state rs b))))))"
  by (intro main_loop_centers initial_centers)




section \<open>The claims\<close>

text \<open>
  C1 (as amended). \<^verbatim>\<open>pipe_refresh\<close> first tests \<^verbatim>\<open>p->center + PIPE_RADIUS < 0\<close>; in 32-bit
  arithmetic the test holds when the center is left of \<open>-3\<close> (and for the three largest
  centers, where the sum overflows). When it holds, the call leaves the center at
  \<^verbatim>\<open>NUM_COLS + PIPE_RADIUS - 1\<close>, stores a new opening height computed from exactly one
  value of \<^verbatim>\<open>rand\<close>, which lies in the closed interval from 0.25 to 0.75, and adds exactly
  1 to the score. When it does not hold, the call only decrements the center: opening,
  score and generator stay as they are.
\<close>

theorem C1_pipe_refresh:
  "(center (get_pipe r g) + PIPE_RADIUS <s 0 \<longleftrightarrow>
      sint (center (get_pipe r g)) + 3 < 0 \<or> 2147483647 < sint (center (get_pipe r g)) + 3) \<and>
   (center (get_pipe r g) + PIPE_RADIUS <s 0 \<longrightarrow>
      center (get_pipe r (pipe_refresh r g)) = NUM_COLS + PIPE_RADIUS - 1 \<and>
      opening_height (get_pipe r (pipe_refresh r g)) = opening_of_rand (ucast (rand_state g 0)) \<and>
      1 / 4 \<le> opening_height (get_pipe r (pipe_refresh r g)) \<and>
      opening_height (get_pipe r (pipe_refresh r g)) \<le> 3 / 4 \<and>
      score (pipe_refresh r g) = score g + 1 \<and>
      rand_state (pipe_refresh r g) = (\<lambda>n. rand_state g (Suc n))) \<and>
   (\<not> center (get_pipe r g) + PIPE_RADIUS <s 0 \<longrightarrow>
      center (get_pipe r (pipe_refresh r g)) = center (get_pipe r g) - 1 \<and>
      opening_height (get_pipe r (pipe_refresh r g)) = opening_height (get_pipe r g) \<and>
      score (pipe_refresh r g) = score g \<and>
      rand_state (pipe_refresh r g) = rand_state g)"
proof -
  have a: "center (get_pipe r g) + PIPE_RADIUS <s 0 \<longleftrightarrow>
      sint (center (get_pipe r g)) + 3 < 0 \<or> 2147483647 < sint (center (get_pipe r g)) + 3"
    by (auto simp add: wrap_cond_iff)
  have "0 \<le> sint (ucast (rand_state g 0) :: cint)"
    by (simp add: sint_rand)
  then have b: "1 / 4 \<le> opening_of_rand (ucast (rand_state g 0)) \<and>
                opening_of_rand (ucast (rand_state g 0)) \<le> 3 / 4"
    by (rule opening_of_rand_bounds)
  have c: "\<not> center (get_pipe r g) + PIPE_RADIUS <s 0 \<Longrightarrow>
      center (get_pipe r (pipe_refresh r g)) = center (get_pipe r g) - 1 \<and>
      opening_height (get_pipe r (pipe_refresh r g)) = opening_height (get_pipe r g) \<and>
      score (pipe_refresh r g) = score g \<and>
      rand_state (pipe_refresh r g) = rand_state g"
    by (simp add: pipe_refresh_stay get_set_pipe_same set_pipe_fields)
  from a b c pipe_refresh_wrap [of r g] show ?thesis by presburger
qed

theorem C1_pipe_refresh_witness:
  "center (get_pipe P1 (sample_globals 7 (- 4) 84)) + PIPE_RADIUS <s 0 \<and>
   center (get_pipe P1 (pipe_refresh P1 (sample_globals 7 (- 4) 84))) = 82 \<and>
   1 / 4 \<le> opening_height (get_pipe P1 (pipe_refresh P1 (sample_globals 7 (- 4) 84))) \<and>
   opening_height (get_pipe P1 (pipe_refresh P1 (sample_globals 7 (- 4) 84))) \<le> 3 / 4 \<and>
   score (pipe_refresh P1 (sample_globals 7 (- 4) 84)) = 6 \<and>
   \<not> center (get_pipe P2 (sample_globals 7 (- 4) 84)) + PIPE_RADIUS <s 0 \<and>
   center (get_pipe P2 (pipe_refresh P2 (sample_globals 7 (- 4) 84))) = 83 \<and>
   score (pipe_refresh P2 (sample_globals 7 (- 4) 84)) = 5"
proof -
  have h1: "center (get_pipe P1 (sample_globals 7 (- 4) 84)) + PIPE_RADIUS <s 0"
    by code_simp
  have h2: "\<not> center (get_pipe P2 (sample_globals 7 (- 4) 84)) + PIPE_RADIUS <s 0"
    by code_simp
  from h1 h2 C1_pipe_refresh [of P1 "sample_globals 7 (- 4) 84"]
    C1_pipe_refresh [of P2 "sample_globals 7 (- 4) 84"]
  show ?thesis
    by (simp add: sample_globals_def NUM_COLS_def PIPE_RADIUS_def)
qed

text \<open>
  C1 as stated fails: the new opening height is not always below 0.75. When \<^verbatim>\<open>rand\<close>
  returns \<^verbatim>\<open>RAND_MAX = INT_MAX\<close>, the quotient \<^verbatim>\<open>rand() / ((float) INT_MAX)\<close> is 1 and the
  stored opening height is exactly 0.75.
\<close>

theorem C1_counterexample:
  "center (get_pipe P1 (sample_globals 2147483647 (- 4) 84)) + PIPE_RADIUS <s 0 \<and>
   opening_height (get_pipe P1 (pipe_refresh P1 (sample_globals 2147483647 (- 4) 84))) = 3 / 4 \<and>
   \<not> opening_height (get_pipe P1 (pipe_refresh P1 (sample_globals 2147483647 (- 4) 84))) < 3 / 4"
  by code_simp

text \<open>
  C2. \<^verbatim>\<open>draw_flappy\<close> ends in the failure screen exactly when Flappy's position is at
  most 0, is at least \<^verbatim>\<open>NUM_ROWS - 1\<close>, or \<^verbatim>\<open>crashed_into_pipe\<close> reports a crash for one
  of the two pipes; otherwise it returns 0 and changes nothing. \<^verbatim>\<open>crashed_into_pipe\<close>
  reports a crash exactly when Flappy's column lies between \<open>center - radius - 1\<close> and
  \<open>center + radius + 1\<close> (read on the integers) and the position lies outside the rows from
  \<^verbatim>\<open>get_orow(p, 1) + 1\<close> to \<^verbatim>\<open>get_orow(p, 0) - 1\<close>; outside that band of columns there is no
  crash, whatever the position. The two row bounds are computed in \<^verbatim>\<open>int\<close>; they are the
  integer bounds unless \<^verbatim>\<open>get_orow\<close> returns the extreme values of \<^verbatim>\<open>int\<close>.
\<close>

theorem C2_collisions:
  "(draw_flappy k b g = failure_screen k g \<longleftrightarrow>
      (sint (get_flappy_position b) \<le> 0 \<or> sint NUM_ROWS - 1 \<le> sint (get_flappy_position b)) \<or>
      crashed_into_pipe b (p1 g) \<noteq> 0 \<or> crashed_into_pipe b (p2 g) \<noteq> 0) \<and>
   (draw_flappy k b g = Return 0 g \<longleftrightarrow>
      \<not> ((sint (get_flappy_position b) \<le> 0 \<or> sint NUM_ROWS - 1 \<le> sint (get_flappy_position b)) \<or>
      crashed_into_pipe b (p1 g) \<noteq> 0 \<or> crashed_into_pipe b (p2 g) \<noteq> 0)) \<and>
   (crashed_into_pipe b p \<noteq> 0 \<longleftrightarrow>
      (sint (center p) - 3 - 1 \<le> sint FLAPPY_COL \<and> sint FLAPPY_COL \<le> sint (center p) + 3 + 1) \<and>
      \<not> (get_orow p 1 + 1 \<le>s get_flappy_position b \<and> get_flappy_position b \<le>s get_orow p 0 - 1)) \<and>
   (\<not> (sint (center p) - 3 - 1 \<le> sint FLAPPY_COL \<and> sint FLAPPY_COL \<le> sint (center p) + 3 + 1) \<longrightarrow>
      crashed_into_pipe b p = 0) \<and>
   (sint (get_orow p 1) < 2147483647 \<and> - 2147483648 < sint (get_orow p 0) \<longrightarrow>
      ((get_orow p 1 + 1 \<le>s get_flappy_position b \<and> get_flappy_position b \<le>s get_orow p 0 - 1) \<longleftrightarrow>
       (sint (get_orow p 1) + 1 \<le> sint (get_flappy_position b) \<and>
        sint (get_flappy_position b) \<le> sint (get_orow p 0) - 1))) \<and>
   (1 / 4 \<le> opening_height p \<and> opening_height p \<le> 3 / 4 \<longrightarrow>
      (crashed_into_pipe b p \<noteq> 0 \<longleftrightarrow>
         (sint (center p) - 3 - 1 \<le> sint FLAPPY_COL \<and> sint FLAPPY_COL \<le> sint (center p) + 3 + 1) \<and>
         \<not> (sint (get_orow p 1) + 1 \<le> sint (get_flappy_position b) \<and>
            sint (get_flappy_position b) \<le> sint (get_orow p 0) - 1)))"
proof -
  have fc: "sint FLAPPY_COL = 10" by (simp add: FLAPPY_COL_def)
  have bd: "(get_flappy_position b \<le>s 0 \<or> NUM_ROWS - 1 \<le>s get_flappy_position b) \<longleftrightarrow>
      (sint (get_flappy_position b) \<le> 0 \<or> sint NUM_ROWS - 1 \<le> sint (get_flappy_position b))"
    by (simp add: word_sle_eq NUM_ROWS_def)
  have a: "draw_flappy k b g = failure_screen k g \<longleftrightarrow>
      (sint (get_flappy_position b) \<le> 0 \<or> sint NUM_ROWS - 1 \<le> sint (get_flappy_position b)) \<or>
      crashed_into_pipe b (p1 g) \<noteq> 0 \<or> crashed_into_pipe b (p2 g) \<noteq> 0"
    unfolding bd [symmetric]
    using failure_screen_not_Return0 [of k g g] by (auto simp add: draw_flappy_cases)
  have b: "draw_flappy k b g = Return 0 g \<longleftrightarrow>
      \<not> ((sint (get_flappy_position b) \<le> 0 \<or> sint NUM_ROWS - 1 \<le> sint (get_flappy_position b)) \<or>
      crashed_into_pipe b (p1 g) \<noteq> 0 \<or> crashed_into_pipe b (p2 g) \<noteq> 0)"
    unfolding bd [symmetric]
    using failure_screen_not_Return0 [of k g g] by (auto simp add: draw_flappy_cases)
  have c: "crashed_into_pipe b p \<noteq> 0 \<longleftrightarrow>
      (sint (center p) - 3 - 1 \<le> sint FLAPPY_COL \<and> sint FLAPPY_COL \<le> sint (center p) + 3 + 1) \<and>
      \<not> (get_orow p 1 + 1 \<le>s get_flappy_position b \<and> get_flappy_position b \<le>s get_orow p 0 - 1)"
    unfolding fc band_iff [symmetric] by (auto simp add: crashed_into_pipe_def)
  have d: "\<not> (sint (center p) - 3 - 1 \<le> sint FLAPPY_COL \<and> sint FLAPPY_COL \<le> sint (center p) + 3 + 1) \<longrightarrow>
      crashed_into_pipe b p = 0"
    unfolding fc band_iff [symmetric] by (simp add: crashed_into_pipe_def)
  note e = rows_iff [of "get_orow p 1" "get_orow p 0" "get_flappy_position b"]
  have r: "sint (get_orow p 1) < 2147483647 \<and> - 2147483648 < sint (get_orow p 0)"
    if "1 / 4 \<le> opening_height p \<and> opening_height p \<le> 3 / 4"
    using that orow_range [of p] by linarith
  from a b c d e r show ?thesis by blast
qed

theorem C2_collisions_witness:
  "get_flappy_position \<lparr>h0 = 8, t = 0\<rparr> = 8 \<and>
   center (p1 (sample_globals 7 10 84)) = 10 \<and>
   get_orow (p1 (sample_globals 7 10 84)) 1 = 8 \<and>
   get_orow (p1 (sample_globals 7 10 84)) 0 = 14 \<and>
   crashed_into_pipe \<lparr>h0 = 8, t = 0\<rparr> (p1 (sample_globals 7 10 84)) \<noteq> 0 \<and>
   draw_flappy 10 \<lparr>h0 = 8, t = 0\<rparr> (sample_globals 7 10 84) =
     failure_screen 10 (sample_globals 7 10 84) \<and>
   center (p2 (sample_globals 7 10 84)) = 84 \<and>
   crashed_into_pipe \<lparr>h0 = 8, t = 0\<rparr> (p2 (sample_globals 7 10 84)) = 0"
proof -
  have h: "get_flappy_position \<lparr>h0 = 8, t = 0\<rparr> = 8"
    "center (p1 (sample_globals 7 10 84)) = 10"
    "get_orow (p1 (sample_globals 7 10 84)) 1 = 8"
    "get_orow (p1 (sample_globals 7 10 84)) 0 = 14"
    "center (p2 (sample_globals 7 10 84)) = 84"
    by code_simp+
  from h C2_collisions [of 10 "\<lparr>h0 = 8, t = 0\<rparr>" "sample_globals 7 10 84" "p1 (sample_globals 7 10 84)"]
    C2_collisions [of 10 "\<lparr>h0 = 8, t = 0\<rparr>" "sample_globals 7 10 84" "p2 (sample_globals 7 10 84)"]
  show ?thesis
    by (simp add: FLAPPY_COL_def word_sle_eq)
qed

text \<open>
  C3 (as amended). With \<^verbatim>\<open>PIPE_RADIUS = 3\<close>, \<^verbatim>\<open>OPENING_WIDTH = 7\<close> and \<^verbatim>\<open>NUM_ROWS = 24\<close>, a
  pipe with opening height 0.5 has its opening's top row at 8 and its bottom row at 14
  (\<open>11.5 - 3\<close> and \<open>11.5 + 3\<close>, with the fraction discarded). When Flappy's column 10 is inside
  the pipe's band, that is the center is between 6 and 14, Flappy passes exactly at the
  rows 9 to 13: there is no crash at row 12 and none at row 10, and there is a crash at
  row 8 and at row 14.
\<close>

theorem C3_scenario:
  assumes "opening_height p = 1 / 2" "6 \<le> sint (center p)" "sint (center p) \<le> 14"
  shows "get_orow p 1 = 8 \<and> get_orow p 0 = 14 \<and>
         (crashed_into_pipe b p = 0 \<longleftrightarrow>
            9 \<le> sint (get_flappy_position b) \<and> sint (get_flappy_position b) \<le> 13) \<and>
         get_flappy_position \<lparr>h0 = 12, t = 0\<rparr> = 12 \<and> crashed_into_pipe \<lparr>h0 = 12, t = 0\<rparr> p = 0 \<and>
         get_flappy_position \<lparr>h0 = 10, t = 0\<rparr> = 10 \<and> crashed_into_pipe \<lparr>h0 = 10, t = 0\<rparr> p = 0 \<and>
         get_flappy_position \<lparr>h0 = 8, t = 0\<rparr> = 8 \<and> crashed_into_pipe \<lparr>h0 = 8, t = 0\<rparr> p = 1 \<and>
         get_flappy_position \<lparr>h0 = 14, t = 0\<rparr> = 14 \<and> crashed_into_pipe \<lparr>h0 = 14, t = 0\<rparr> p = 1"
proof -
  have "to_int (round32 (round32 (1 / 2 * 23) - 3)) = 8" "to_int (round32 (round32 (1 / 2 * 23) + 3)) = 14"
    by code_simp+
  then have rows: "get_orow p 1 = 8" "get_orow p 0 = 14"
    unfolding get_orow_eq assms(1) by simp_all
  have band: "center p - PIPE_RADIUS - 1 \<le>s FLAPPY_COL \<and> FLAPPY_COL \<le>s center p + PIPE_RADIUS + 1"
    using assms(2,3) by (simp add: band_iff)
  have crash: "crashed_into_pipe b p = (if 9 \<le> sint (get_flappy_position b) \<and>
      sint (get_flappy_position b) \<le> 13 then 0 else 1)" for b
    using band rows by (simp add: crashed_into_pipe_def word_sle_eq)
  have pos: "get_flappy_position \<lparr>h0 = 12, t = 0\<rparr> = 12" "get_flappy_position \<lparr>h0 = 10, t = 0\<rparr> = 10"
    "get_flappy_position \<lparr>h0 = 8, t = 0\<rparr> = 8" "get_flappy_position \<lparr>h0 = 14, t = 0\<rparr> = 14"
    by (simp_all add: position_at_launch)
  show ?thesis
    using rows pos by (simp add: crash)
qed

theorem C3_scenario_witness:
  "opening_height \<lparr>opening_height = 1 / 2, center = 10\<rparr> = 1 / 2 \<and>
   sint (center \<lparr>opening_height = 1 / 2, center = 10\<rparr>) = 10 \<and>
   get_orow \<lparr>opening_height = 1 / 2, center = 10\<rparr> 1 = 8 \<and>
   get_orow \<lparr>opening_height = 1 / 2, center = 10\<rparr> 0 = 14 \<and>
   crashed_into_pipe \<lparr>h0 = 12, t = 0\<rparr> \<lparr>opening_height = 1 / 2, center = 10\<rparr> = 0 \<and>
   crashed_into_pipe \<lparr>h0 = 10, t = 0\<rparr> \<lparr>opening_height = 1 / 2, center = 10\<rparr> = 0 \<and>
   crashed_into_pipe \<lparr>h0 = 8, t = 0\<rparr> \<lparr>opening_height = 1 / 2, center = 10\<rparr> = 1"
  using C3_scenario [of "\<lparr>opening_height = 1 / 2, center = 10\<rparr>"]
  by simp

text \<open>
  C3 as stated fails: the rows of the opening are 8 and 14, not 10.5 and 15, and Flappy
  does not crash at row 10 in the band of the pipe.
\<close>

theorem C3_counterexample:
  "get_orow \<lparr>opening_height = 1 / 2, center = 10\<rparr> 1 = 8 \<and>
   get_orow \<lparr>opening_height = 1 / 2, center = 10\<rparr> 0 = 14 \<and>
   center \<lparr>opening_height = 1 / 2, center = 10\<rparr> - PIPE_RADIUS - 1 \<le>s FLAPPY_COL \<and>
   FLAPPY_COL \<le>s center \<lparr>opening_height = 1 / 2, center = 10\<rparr> + PIPE_RADIUS + 1 \<and>
   get_flappy_position \<lparr>h0 = 10, t = 0\<rparr> = 10 \<and>
   crashed_into_pipe \<lparr>h0 = 10, t = 0\<rparr> \<lparr>opening_height = 1 / 2, center = 10\<rparr> = 0"
  by code_simp

text \<open>
  C4 (as amended). For every pipe, \<^verbatim>\<open>get_orow\<close> computes the product of the opening height
  and \<^verbatim>\<open>NUM_ROWS - 1 = 23\<close> in \<^verbatim>\<open>float\<close>, subtracts 3 for the top and adds 3 for the bottom,
  and discards the fraction of the result: the half-width is the integer quotient
  \<^verbatim>\<open>OPENING_WIDTH / 2 = 3\<close>, with \<^verbatim>\<open>-7 / 2 = -3\<close>. For an opening height between 0.25 and
  0.75 the top row is between 2 and 14 and the bottom row between 8 and 20.
\<close>

theorem C4_opening_rows:
  "get_orow p 1 = to_int (round32 (round32 (opening_height p * 23) - 3)) \<and>
   get_orow p 0 = to_int (round32 (round32 (opening_height p * 23) + 3)) \<and>
   (tp \<noteq> 0 \<longrightarrow> get_orow p tp = get_orow p 1) \<and>
   c_div (1 * OPENING_WIDTH) 2 = 3 \<and> c_div (- 1 * OPENING_WIDTH) 2 = - 3 \<and>
   (1 / 4 \<le> opening_height p \<and> opening_height p \<le> 3 / 4 \<longrightarrow>
      2 \<le> sint (get_orow p 1) \<and> sint (get_orow p 1) \<le> 14 \<and>
      8 \<le> sint (get_orow p 0) \<and> sint (get_orow p 0) \<le> 20)"
proof -
  have rows: "get_orow p 1 = to_int (round32 (round32 (opening_height p * 23) - 3))"
    "get_orow p 0 = to_int (round32 (round32 (opening_height p * 23) + 3))"
    by (simp_all add: get_orow_eq)
  have tops: "get_orow p tp = get_orow p 1" if "tp \<noteq> 0"
    using that by (simp add: get_orow_eq)
  have half: "c_div (1 * OPENING_WIDTH) 2 = 3" "c_div (- 1 * OPENING_WIDTH) 2 = - 3"
    by (simp_all add: half_width)
  from rows tops half orow_range [of p] show ?thesis by blast
qed

theorem C4_opening_rows_witness:
  "(1 / 4 :: rat) \<le> opening_height \<lparr>opening_height = 1 / 4, center = 10\<rparr> \<and>
   opening_height \<lparr>opening_height = 1 / 4, center = 10\<rparr> \<le> 3 / 4 \<and>
   2 \<le> sint (get_orow \<lparr>opening_height = 1 / 4, center = 10\<rparr> 1) \<and>
   sint (get_orow \<lparr>opening_height = 1 / 4, center = 10\<rparr> 0) \<le> 20 \<and>
   get_orow \<lparr>opening_height = 1 / 4, center = 10\<rparr> 5 = get_orow \<lparr>opening_height = 1 / 4, center = 10\<rparr> 1"
proof -
  have h: "(1 / 4 :: rat) \<le> opening_height \<lparr>opening_height = 1 / 4, center = 10\<rparr> \<and>
     opening_height \<lparr>opening_height = 1 / 4, center = 10\<rparr> \<le> 3 / 4"
    by simp
  have n: "(5 :: cint) \<noteq> 0"
    by simp
  from h n C4_opening_rows [of "\<lparr>opening_height = 1 / 4, center = 10\<rparr>" 5]
  show ?thesis by blast
qed

text \<open>
  C4 as stated fails: with the half-width 3.5 of the specification the bottom row of a
  pipe with opening height 0.5 would be 15; \<^verbatim>\<open>get_orow\<close> returns 14.
\<close>

theorem C4_counterexample:
  "opening_row_spec (1 / 2) False = 15 \<and>
   get_orow \<lparr>opening_height = 1 / 2, center = 10\<rparr> 0 = 14 \<and>
   (of_int (sint (get_orow \<lparr>opening_height = 1 / 2, center = 10\<rparr> 0)) :: rat) \<noteq>
     opening_row_spec (1 / 2) False"
  by code_simp



text \<open>
  C6 (as amended). A game starts Flappy at \<^verbatim>\<open>h0 = 12\<close>, \<^verbatim>\<open>t = 0\<close>, and five iterations
  without a key bring \<^verbatim>\<open>t\<close> to 5: whatever the generator returns, the first five iterations
  of the loop end without a crash in that state. With gravity 0.05 and initial velocity -0.5 the kinematic
  formula gives \<open>12 - 2.5 + 0.625 = 10.125\<close>; the program computes the arc as
  5435817989 / 536870912, slightly above 10.125 because the \<^verbatim>\<open>float\<close> nearest to 0.05 is
  above it, and \<^verbatim>\<open>get_flappy_position\<close> returns the row 10, the arc without its fraction.
\<close>

theorem C6_position_after_5_ticks:
  "f (fst (start_game s)) = \<lparr>h0 = 12, t = 0\<rparr> \<and>
   (process_key (- 1) ^^ 5) \<lparr>h0 = 12, t = 0\<rparr> = \<lparr>h0 = 12, t = 5\<rparr> \<and>
   GRAV = 13421773 / 268435456 \<and> V0 = - 1 / 2 \<and>
   kinematic_position 12 5 = 81 / 8 \<and>
   flappy_arc \<lparr>h0 = 12, t = 5\<rparr> = 5435817989 / 536870912 \<and>
   get_flappy_position \<lparr>h0 = 12, t = 5\<rparr> = 10 \<and>
   trunc (kinematic_position 12 5) = 10 \<and>
   (\<exists>s'. main_loop (replicate 5 (- 1, k)) (initial_state gen b) = Return () s' \<and>
         f (fst s') = \<lparr>h0 = 12, t = 5\<rparr>)"
proof -
  have a: "f (fst (start_game s)) = \<lparr>h0 = 12, t = 0\<rparr>"
    by (rule start_game_locals)
  have b: "(process_key (- 1) ^^ 5) \<lparr>h0 = 12, t = 0\<rparr> = \<lparr>h0 = 12, t = 5\<rparr>"
    "GRAV = 13421773 / 268435456" "V0 = - 1 / 2"
    "kinematic_position 12 5 = 81 / 8"
    "flappy_arc \<lparr>h0 = 12, t = 5\<rparr> = 5435817989 / 536870912"
    "get_flappy_position \<lparr>h0 = 12, t = 5\<rparr> = 10"
    "trunc (kinematic_position 12 5) = 10"
    by code_simp+
  from a b five_ticks [of k gen b] show ?thesis by blast
qed

text \<open>
  C6 as stated fails: the position after 5 ticks is the integer 10, not 10.125.
\<close>

theorem C6_counterexample:
  "kinematic_position 12 5 = 81 / 8 \<and>
   get_flappy_position \<lparr>h0 = 12, t = 5\<rparr> = 10 \<and>
   (of_int (sint (get_flappy_position \<lparr>h0 = 12, t = 5\<rparr>)) :: rat) \<noteq> kinematic_position 12 5"
  by code_simp

text \<open>
  C7 (as amended). When the failure screen reads a key other than \<^verbatim>\<open>'q'\<close>, it returns 1
  with the best score set to the larger of best score and score, and the score reset to 0.
  When it reads \<^verbatim>\<open>'q'\<close>, the process exits and both are left as they were. An iteration of
  the loop changes the best score only if it ends in such a restart. Over any sequence of
  iterations, whatever the keys, the best score never decreases.
\<close>

theorem C7_best_score:
  "(ucast k \<noteq> (ucast CHAR_q :: 8 word) \<longrightarrow>
      (\<exists>g'. failure_screen k g = Return 1 g' \<and>
            sint (best_score g') = max (sint (best_score g)) (sint (score g)) \<and> score g' = 0)) \<and>
   (ucast k = (ucast CHAR_q :: 8 word) \<longrightarrow> failure_screen k g = Exit g) \<and>
   (best_score (snd (state_of (main_loop_body ch k s))) \<noteq> best_score (snd s) \<longrightarrow>
      ucast k \<noteq> (ucast CHAR_q :: 8 word) \<and>
      (\<exists>s'. main_loop_body ch k s = Return () s' \<and> restart (fst s') = 1 \<and> score (snd s') = 0)) \<and>
   sint (best_score (snd s)) \<le> sint (best_score (snd (state_of (main_loop ks s))))"
  using failure_screen_restart [of k g] failure_screen_quit [of k g]
    main_loop_body_best_changes [of ch k s] main_loop_best_mono [of s ks]
  by blast

theorem C7_best_score_witness:
  "ucast (10 :: cint) \<noteq> (ucast CHAR_q :: 8 word) \<and>
   failure_screen 10 (sample_globals 7 40 84) =
     Return 1 (state_of (failure_screen 10 (sample_globals 7 40 84))) \<and>
   sint (best_score (state_of (failure_screen 10 (sample_globals 7 40 84)))) = 5 \<and>
   score (state_of (failure_screen 10 (sample_globals 7 40 84))) = 0 \<and>
   best_score (snd (sample_state 30 0)) = 3 \<and>
   best_score (snd (state_of (main_loop_body (- 1) 10 (sample_state 30 0)))) = 5 \<and>
   restart (fst (state_of (main_loop_body (- 1) 10 (sample_state 30 0)))) = 1 \<and>
   score (snd (state_of (main_loop_body (- 1) 10 (sample_state 30 0)))) = 0 \<and>
   sint (best_score (snd (sample_state 30 0))) \<le>
     sint (best_score (snd (state_of (main_loop [(- 1, 10), (- 1, 10)] (sample_state 30 0)))))"
proof -
  have h: "ucast (10 :: cint) \<noteq> (ucast CHAR_q :: 8 word)"
    "sint (best_score (sample_globals 7 40 84)) = 3"
    "sint (score (sample_globals 7 40 84)) = 5"
    "best_score (snd (sample_state 30 0)) = 3"
    "best_score (snd (state_of (main_loop_body (- 1) 10 (sample_state 30 0)))) = 5"
    by code_simp+
  have d: "best_score (snd (state_of (main_loop_body (- 1) 10 (sample_state 30 0)))) \<noteq>
      best_score (snd (sample_state 30 0))"
    unfolding h by simp
  from C7_best_score [of 10 "sample_globals 7 40 84" "- 1" "sample_state 30 0" "[(- 1, 10), (- 1, 10)]"] h d
  show ?thesis
    by (auto simp del: of_int_sint)
qed

text \<open>
  C7 as stated fails on the quit path of the failure screen: when the key is \<^verbatim>\<open>'q'\<close> the
  process exits with the score at 5 and the best score still at 3.
\<close>

theorem C7_counterexample:
  "sint (score (sample_globals 7 40 84)) = 5 \<and>
   sint (best_score (sample_globals 7 40 84)) = 3 \<and>
   failure_screen CHAR_q (sample_globals 7 40 84) = Exit (state_of (failure_screen CHAR_q (sample_globals 7 40 84))) \<and>
   sint (best_score (state_of (failure_screen CHAR_q (sample_globals 7 40 84)))) = 3 \<and>
   sint (score (state_of (failure_screen CHAR_q (sample_globals 7 40 84)))) = 5"
  by (simp add: failure_screen_def sample_globals_def)

text \<open>
  C8. A pipe whose center is at column 4 is moved by each of the next 8 calls of
  \<^verbatim>\<open>pipe_refresh\<close> one column to the left, without a respawn: the score, the opening and
  the generator stay as they are, and the center reaches \<open>-4\<close>. There the wrap test holds, and
  the ninth call takes the wrap branch: it sets the center to \<^verbatim>\<open>NUM_COLS + PIPE_RADIUS\<close>,
  which the decrement at the end of the same call leaves at 82, and adds exactly 1 to the
  score.
\<close>

theorem C8_scenario:
  assumes "center (get_pipe r g) = 4"
  shows "(\<forall>k \<le> 8. center (get_pipe r ((pipe_refresh r ^^ k) g)) = 4 - of_nat k \<and>
                   score ((pipe_refresh r ^^ k) g) = score g \<and>
                   opening_height (get_pipe r ((pipe_refresh r ^^ k) g)) = opening_height (get_pipe r g) \<and>
                   rand_state ((pipe_refresh r ^^ k) g) = rand_state g) \<and>
         center (get_pipe r ((pipe_refresh r ^^ 8) g)) = - 4 \<and>
         center (get_pipe r ((pipe_refresh r ^^ 8) g)) + PIPE_RADIUS <s 0 \<and>
         center (get_pipe r ((pipe_refresh r ^^ 9) g)) = NUM_COLS + PIPE_RADIUS - 1 \<and>
         score ((pipe_refresh r ^^ 9) g) = score g + 1"
proof -
  have steps: "center (get_pipe r ((pipe_refresh r ^^ k) g)) = 4 - of_nat k \<and>
               score ((pipe_refresh r ^^ k) g) = score g \<and>
               opening_height (get_pipe r ((pipe_refresh r ^^ k) g)) = opening_height (get_pipe r g) \<and>
               rand_state ((pipe_refresh r ^^ k) g) = rand_state g" if "k \<le> 8" for k
  proof -
    from that assms refresh_steps [of k r g]
    obtain c' where e: "(pipe_refresh r ^^ k) g = set_pipe r ((get_pipe r g)\<lparr>center := c'\<rparr>) g"
      and c': "sint c' = 4 - int k" by auto
    from c' have "c' = 4 - of_nat k" by (auto dest: sint_eq_numeral)
    then show ?thesis using e by (simp add: get_set_pipe_same set_pipe_fields)
  qed
  from steps [of 8] have c8: "center (get_pipe r ((pipe_refresh r ^^ 8) g)) = - 4" by simp
  have "(- 4 :: cint) + PIPE_RADIUS <s 0"
    by (simp add: PIPE_RADIUS_def word_sless_alt)
  with c8 have w: "center (get_pipe r ((pipe_refresh r ^^ 8) g)) + PIPE_RADIUS <s 0"
    by simp
  have nine: "(pipe_refresh r ^^ 9) g = pipe_refresh r ((pipe_refresh r ^^ 8) g)"
    by (simp add: numeral_eq_Suc)
  from pipe_refresh_wrap(1) [OF w] nine
  have c9: "center (get_pipe r ((pipe_refresh r ^^ 9) g)) = NUM_COLS + PIPE_RADIUS - 1" by simp
  from pipe_refresh_wrap(3) [OF w] nine steps [of 8]
  have s9: "score ((pipe_refresh r ^^ 9) g) = score g + 1" by simp
  from steps c8 w c9 s9 show ?thesis by blast
qed

theorem C8_scenario_witness:
  "center (get_pipe P1 \<lparr>frame = 0, score = 0, sdigs = 1, best_score = 0, bdigs = 1,
       p1 = \<lparr>opening_height = 1 / 2, center = 4\<rparr>, p2 = \<lparr>opening_height = 1 / 2, center = 48\<rparr>,
       rand_state = (\<lambda>n. 7)\<rparr>) = 4 \<and>
   center (get_pipe P1 ((pipe_refresh P1 ^^ 8) \<lparr>frame = 0, score = 0, sdigs = 1, best_score = 0, bdigs = 1,
       p1 = \<lparr>opening_height = 1 / 2, center = 4\<rparr>, p2 = \<lparr>opening_height = 1 / 2, center = 48\<rparr>,
       rand_state = (\<lambda>n. 7)\<rparr>)) = - 4 \<and>
   center (get_pipe P1 ((pipe_refresh P1 ^^ 9) \<lparr>frame = 0, score = 0, sdigs = 1, best_score = 0, bdigs = 1,
       p1 = \<lparr>opening_height = 1 / 2, center = 4\<rparr>, p2 = \<lparr>opening_height = 1 / 2, center = 48\<rparr>,
       rand_state = (\<lambda>n. 7)\<rparr>)) = 82 \<and>
   score ((pipe_refresh P1 ^^ 9) \<lparr>frame = 0, score = 0, sdigs = 1, best_score = 0, bdigs = 1,
       p1 = \<lparr>opening_height = 1 / 2, center = 4\<rparr>, p2 = \<lparr>opening_height = 1 / 2, center = 48\<rparr>,
       rand_state = (\<lambda>n. 7)\<rparr>) = 1"
  using C8_scenario [of P1 "\<lparr>frame = 0, score = 0, sdigs = 1, best_score = 0, bdigs = 1,
       p1 = \<lparr>opening_height = 1 / 2, center = 4\<rparr>, p2 = \<lparr>opening_height = 1 / 2, center = 48\<rparr>,
       rand_state = (\<lambda>n. 7)\<rparr>"]
  by (simp add: NUM_COLS_def PIPE_RADIUS_def)

text \<open>
  C9. When the loop reads \<^verbatim>\<open>'q'\<close>, the iteration ends the process at once: it exits in
  the state in which it read the key (after the initialisations of a game, if the
  iteration started one), without a call of the failure screen. Score, best score and their
  digit counts are what they were.
\<close>

theorem C9_quit_while_playing:
  "main_loop_body CHAR_q k s = Exit (if restart (fst s) \<noteq> 0 then start_game s else s) \<and>
   score (snd (state_of (main_loop_body CHAR_q k s))) = score (snd s) \<and>
   sdigs (snd (state_of (main_loop_body CHAR_q k s))) = sdigs (snd s) \<and>
   best_score (snd (state_of (main_loop_body CHAR_q k s))) = best_score (snd s) \<and>
   bdigs (snd (state_of (main_loop_body CHAR_q k s))) = bdigs (snd s) \<and>
   (leave_loop (fst s) = 0 \<longrightarrow>
      main_loop ((CHAR_q, k) # ks) s = Exit (if restart (fst s) \<noteq> 0 then start_game s else s))"
proof -
  have quit: "main_loop_body CHAR_q k s = Exit (if restart (fst s) \<noteq> 0 then start_game s else s)"
    by (rule main_loop_body_quit)
  have fields: "score (snd (state_of (main_loop_body CHAR_q k s))) = score (snd s)"
    "sdigs (snd (state_of (main_loop_body CHAR_q k s))) = sdigs (snd s)"
    "best_score (snd (state_of (main_loop_body CHAR_q k s))) = best_score (snd s)"
    "bdigs (snd (state_of (main_loop_body CHAR_q k s))) = bdigs (snd s)"
    unfolding quit by (simp_all add: start_game_scores)
  have loop: "main_loop ((CHAR_q, k) # ks) s = Exit (if restart (fst s) \<noteq> 0 then start_game s else s)"
    if "leave_loop (fst s) = 0"
    using that by (simp add: quit)
  from quit fields loop show ?thesis by blast
qed

theorem C9_quit_while_playing_witness:
  "leave_loop (fst (sample_state 12 3)) = 0 \<and>
   main_loop [(CHAR_q, 10), (- 1, 10)] (sample_state 12 3) = Exit (sample_state 12 3) \<and>
   best_score (snd (state_of (main_loop_body CHAR_q 10 (sample_state 12 3)))) = 3 \<and>
   score (snd (state_of (main_loop_body CHAR_q 10 (sample_state 12 3)))) = 5"
proof -
  have h: "leave_loop (fst (sample_state 12 3)) = 0" "restart (fst (sample_state 12 3)) = 0"
    "best_score (snd (sample_state 12 3)) = 3" "score (snd (sample_state 12 3)) = 5"
    by code_simp+
  from h C9_quit_while_playing [of 10 "sample_state 12 3" "[(- 1, 10)]"]
  show ?thesis by simp
qed

text \<open>
  C10. A pipe whose center is at \<open>-4\<close> or right of it stays there under any sequence of
  calls of \<^verbatim>\<open>pipe_refresh\<close>, on either pipe and with any values of the generator. At \<open>-4\<close>
  the very next call on the pipe wraps it. Both pipes start a game right of \<open>-4\<close>, at 94 and
  at 138, and over any number of iterations of the loop of \<^verbatim>\<open>main\<close>, whatever the keys and the
  generator, neither center goes below \<open>-4\<close>.
\<close>

theorem C10_center_lower_bound:
  "(- 4 \<le> sint (center (get_pipe r g)) \<longrightarrow>
      - 4 \<le> sint (center (get_pipe r (foldl (\<lambda>g r'. pipe_refresh r' g) g rs)))) \<and>
   (center (get_pipe r g) = - 4 \<longrightarrow>
      center (get_pipe r (pipe_refresh r g)) = NUM_COLS + PIPE_RADIUS - 1) \<and>
   center (p1 (snd (start_game s))) = 94 \<and> center (p2 (snd (start_game s))) = 138 \<and>
   (- 4 \<le> sint (center (p1 (snd s))) \<and> - 4 \<le> sint (center (p2 (snd s))) \<longrightarrow>
      - 4 \<le> sint (center (p1 (snd (state_of (main_loop ks s))))) \<and>
      - 4 \<le> sint (center (p2 (snd (state_of (main_loop ks s)))))) \<and>
   - 4 \<le> sint (center (p1 (snd (state_of (main_loop ks (initial_state gen b)))))) \<and>
   - 4 \<le> sint (center (p2 (snd (state_of (main_loop ks (initial_state gen b))))))"
proof -
  have "(- 4 :: cint) + PIPE_RADIUS <s 0"
    by (simp add: PIPE_RADIUS_def word_sless_alt)
  then have "center (get_pipe r g) = - 4 \<Longrightarrow>
      center (get_pipe r (pipe_refresh r g)) = NUM_COLS + PIPE_RADIUS - 1"
    using pipe_refresh_wrap(1) [of r g] by simp
  moreover note foldl_refresh_center_ge [of r g rs] start_game_centers [of s]
    main_loop_centers [of s ks]
    main_loop_centers_initial [of ks gen b]
  ultimately show ?thesis by blast
qed

theorem C10_center_lower_bound_witness:
  "- 4 \<le> sint (center (get_pipe P2 \<lparr>frame = 0, score = 0, sdigs = 1, best_score = 0, bdigs = 1,
       p1 = \<lparr>opening_height = 1 / 2, center = 2\<rparr>, p2 = \<lparr>opening_height = 1 / 2, center = - 4\<rparr>,
       rand_state = (\<lambda>n. 7)\<rparr>)) \<and>
   - 4 \<le> sint (center (get_pipe P2 (foldl (\<lambda>g r'. pipe_refresh r' g)
      \<lparr>frame = 0, score = 0, sdigs = 1, best_score = 0, bdigs = 1,
       p1 = \<lparr>opening_height = 1 / 2, center = 2\<rparr>, p2 = \<lparr>opening_height = 1 / 2, center = - 4\<rparr>,
       rand_state = (\<lambda>n. 7)\<rparr> [P1, P2, P1, P2]))) \<and>
   center (get_pipe P2 (pipe_refresh P2 \<lparr>frame = 0, score = 0, sdigs = 1, best_score = 0, bdigs = 1,
       p1 = \<lparr>opening_height = 1 / 2, center = 2\<rparr>, p2 = \<lparr>opening_height = 1 / 2, center = - 4\<rparr>,
       rand_state = (\<lambda>n. 7)\<rparr>)) = 82"
  using C10_center_lower_bound [of P2 "\<lparr>frame = 0, score = 0, sdigs = 1, best_score = 0, bdigs = 1,
       p1 = \<lparr>opening_height = 1 / 2, center = 2\<rparr>, p2 = \<lparr>opening_height = 1 / 2, center = - 4\<rparr>,
       rand_state = (\<lambda>n. 7)\<rparr>" "[P1, P2, P1, P2]"]
  by (simp add: NUM_COLS_def PIPE_RADIUS_def)

end
